theory Spec2Isabelle
  imports Main "HOL-Library.AList" "HOL-Library.Word"
begin

section \<open>Python values used by the service\<close>

text \<open>
  The service is two Python modules: \<^verbatim>\<open>server/main.py\<close> (the FastAPI endpoints) and
  \<^verbatim>\<open>server/my_rag.py\<close> (the class \<^verbatim>\<open>MyRAGAgent\<close>). The sources are taken as they are
  written. The class defines a method \<^verbatim>\<open>_init_\<close> and no \<^verbatim>\<open>__init__\<close>, so the call
  \<^verbatim>\<open>MyRAGAgent(gemini_api_key=...)\<close> raises a \<^verbatim>\<open>TypeError\<close> and never runs that method.
  Both modules read the undefined names \<^verbatim>\<open>_name_\<close> and \<^verbatim>\<open>_file_\<close> at import, which raises
  a \<^verbatim>\<open>NameError\<close>; the import is not modelled. The endpoints and the methods of the
  agent are modelled on any state of the module's globals, with or without an agent.

  Python strings are modelled by \<^typ>\<open>string\<close>, one \<^typ>\<open>char\<close> per code point below 256;
  uploaded file contents are lists of bytes.
\<close>

type_synonym bytes = "8 word list"

text \<open>
  \<^verbatim>\<open>str.lower()\<close> on code points below 256: the ASCII capitals and the Latin-1 capitals
  move up by 32, which sets bit 5 of the code point (it is clear in both ranges).
\<close>

definition lower_char :: "char \<Rightarrow> char" where
  "lower_char c =
     (let n = (of_char c :: nat)
      in if (65 \<le> n \<and> n \<le> 90) \<or> (192 \<le> n \<and> n \<le> 214) \<or> (216 \<le> n \<and> n \<le> 222)
         then (case c of Char b0 b1 b2 b3 b4 b5 b6 b7 \<Rightarrow> Char b0 b1 b2 b3 b4 True b6 b7)
         else c)"

definition lower :: "string \<Rightarrow> string" where
  "lower s = map lower_char s"

text \<open>\<^verbatim>\<open>s.endswith(suf)\<close> and \<^verbatim>\<open>s.startswith(pre)\<close>.\<close>

definition endswith :: "string \<Rightarrow> string \<Rightarrow> bool" where
  "endswith s suf = (length suf \<le> length s \<and> drop (length s - length suf) s = suf)"

definition startswith :: "string \<Rightarrow> string \<Rightarrow> bool" where
  "startswith s pre = (take (length pre) s = pre)"

text \<open>The test \<^verbatim>\<open>name.lower().endswith('.pdf')\<close>, written four times in the sources.\<close>

definition is_pdf_name :: "string \<Rightarrow> bool" where
  "is_pdf_name name = endswith (lower name) ''.pdf''"

text \<open>
  \<^verbatim>\<open>str.isspace\<close> on one code point below 256, and \<^verbatim>\<open>str.strip()\<close>, which removes
  the leading and the trailing whitespace.
\<close>

definition is_space :: "char \<Rightarrow> bool" where
  "is_space c =
     (let n = (of_char c :: nat)
      in (9 \<le> n \<and> n \<le> 13) \<or> (28 \<le> n \<and> n \<le> 32) \<or> n = 133 \<or> n = 160)"

definition strip :: "string \<Rightarrow> string" where
  "strip s = rev (dropWhile is_space (rev (dropWhile is_space s)))"

text \<open>\<^verbatim>\<open>xs[-n:]\<close> for a positive \<^verbatim>\<open>n\<close>: the last \<^verbatim>\<open>n\<close> elements, all of them when there are fewer.\<close>

definition last_n :: "nat \<Rightarrow> 'a list \<Rightarrow> 'a list" where
  "last_n n xs = drop (length xs - n) xs"

text \<open>\<^verbatim>\<open>str(n)\<close> for a natural number, and \<^verbatim>\<open>sep.join(parts)\<close>.\<close>

definition digit_char :: "nat \<Rightarrow> char" where
  "digit_char d = ''0123456789'' ! d"

fun str_nat :: "nat \<Rightarrow> string" where
  "str_nat n = (if n < 10 then [digit_char n] else str_nat (n div 10) @ [digit_char (n mod 10)])"

declare str_nat.simps [simp del]

fun join :: "string \<Rightarrow> string list \<Rightarrow> string" where
  "join sep [] = []"
| "join sep [x] = x"
| "join sep (x # y # ys) = x @ sep @ join sep (y # ys)"

text \<open>
  Python exceptions. The handlers of the service tell only \<^verbatim>\<open>HTTPException\<close> from the
  other exceptions, so the other classes (\<^verbatim>\<open>ValueError\<close>, \<^verbatim>\<open>OSError\<close>, \<^verbatim>\<open>Exception\<close>)
  are one constructor carrying the message. \<^verbatim>\<open>str(e)\<close> of an \<^verbatim>\<open>HTTPException\<close> is
  Starlette's \<^verbatim>\<open>"{status_code}: {detail}"\<close>.
\<close>

datatype exn = HTTPException nat string | Exception string

fun str_exn :: "exn \<Rightarrow> string" where
  "str_exn (HTTPException code detail) = str_nat code @ '': '' @ detail"
| "str_exn (Exception msg) = msg"

section \<open>The file system\<close>

text \<open>
  The PDFs directory lives on a POSIX file system without symbolic links. A node is a
  regular file or a directory; the file system is an association list from absolute,
  resolved paths (lists of component names, the root being the empty list) to nodes.
  Relative path strings are resolved from the root.
\<close>

datatype node = File bytes | Dir

type_synonym path = "string list"

type_synonym filesystem = "(path \<times> node) list"

definition node_at :: "filesystem \<Rightarrow> path \<Rightarrow> node option" where
  "node_at fs p = (if p = [] then Some Dir else map_of fs p)"

text \<open>Splitting a path string at its separators: \<^verbatim>\<open>"a/b"\<close> has the components a and b.\<close>

fun split_on :: "char \<Rightarrow> string \<Rightarrow> string list" where
  "split_on c [] = [[]]"
| "split_on c (x # xs) =
     (if x = c then [] # split_on c xs
      else (case split_on c xs of [] \<Rightarrow> [[x]] | w # ws \<Rightarrow> (x # w) # ws))"

text \<open>
  Walking directory components from a directory: empty components and \<^verbatim>\<open>.\<close> stay,
  \<^verbatim>\<open>..\<close> goes to the parent, a name must be an existing directory.
\<close>

fun walk :: "filesystem \<Rightarrow> path \<Rightarrow> string list \<Rightarrow> path option" where
  "walk fs cur [] = Some cur"
| "walk fs cur (c # cs) =
     (if c = [] \<or> c = ''.'' then walk fs cur cs
      else if c = ''..'' then walk fs (butlast cur) cs
      else (case node_at fs (cur @ [c]) of
              Some Dir \<Rightarrow> walk fs (cur @ [c]) cs
            | _ \<Rightarrow> None))"

text \<open>
  Resolving a path string: the directory its leading components reach, and the last
  component. \<^verbatim>\<open>None\<close> when a leading component is missing or is not a directory.
\<close>

definition resolve :: "filesystem \<Rightarrow> string \<Rightarrow> (path \<times> string) option" where
  "resolve fs p =
     (let comps = split_on CHR ''/'' p
      in (case walk fs [] (butlast comps) of
            None \<Rightarrow> None
          | Some d \<Rightarrow> Some (d, last comps)))"

definition names_dir :: "string \<Rightarrow> bool" where
  "names_dir l = (l = [] \<or> l = ''.'' \<or> l = ''..'')"

text \<open>\<^verbatim>\<open>os.path.join(a, b)\<close> of \<^verbatim>\<open>posixpath\<close>.\<close>

definition path_join :: "string \<Rightarrow> string \<Rightarrow> string" where
  "path_join a b =
     (if startswith b ''/'' then b
      else if a = [] \<or> endswith a ''/'' then a @ b
      else a @ ''/'' @ b)"

text \<open>\<^verbatim>\<open>os.path.exists(p)\<close>, and the node a path string names, if any.\<close>

definition stat :: "filesystem \<Rightarrow> string \<Rightarrow> node option" where
  "stat fs p =
     (case resolve fs p of
        None \<Rightarrow> None
      | Some (d, l) \<Rightarrow>
          (if l = [] \<or> l = ''.'' then Some Dir
           else if l = ''..'' then Some Dir
           else node_at fs (d @ [l])))"

definition path_exists :: "filesystem \<Rightarrow> string \<Rightarrow> bool" where
  "path_exists fs p = (stat fs p \<noteq> None)"

text \<open>\<^verbatim>\<open>repr(p)\<close> of a path without quotes or escapes in it, as an \<^verbatim>\<open>OSError\<close> prints it.\<close>

definition quoted :: "string \<Rightarrow> string" where
  "quoted p = [CHR 0x27] @ p @ [CHR 0x27]"

text \<open>
  \<^verbatim>\<open>with open(p, "wb") as buffer: buffer.write(content)\<close>: creates the file or replaces
  its content; raises when the directory is missing or \<^verbatim>\<open>p\<close> names a directory.
\<close>

definition write_file :: "filesystem \<Rightarrow> string \<Rightarrow> bytes \<Rightarrow> exn + filesystem" where
  "write_file fs p content =
     (case resolve fs p of
        None \<Rightarrow> Inl (Exception (''[Errno 2] No such file or directory: '' @ quoted p))
      | Some (d, l) \<Rightarrow>
          (if names_dir l then Inl (Exception (''[Errno 21] Is a directory: '' @ quoted p))
           else (case node_at fs (d @ [l]) of
                   Some Dir \<Rightarrow> Inl (Exception (''[Errno 21] Is a directory: '' @ quoted p))
                 | _ \<Rightarrow> Inr (AList.update (d @ [l]) (File content) fs))))"

text \<open>\<^verbatim>\<open>os.remove(p)\<close>: removes a regular file; raises on a directory or a missing path.\<close>

definition remove :: "filesystem \<Rightarrow> string \<Rightarrow> exn + filesystem" where
  "remove fs p =
     (case resolve fs p of
        None \<Rightarrow> Inl (Exception (''[Errno 2] No such file or directory: '' @ quoted p))
      | Some (d, l) \<Rightarrow>
          (if names_dir l then Inl (Exception (''[Errno 21] Is a directory: '' @ quoted p))
           else (case node_at fs (d @ [l]) of
                   Some (File c) \<Rightarrow> Inr (AList.delete (d @ [l]) fs)
                 | Some Dir \<Rightarrow> Inl (Exception (''[Errno 21] Is a directory: '' @ quoted p))
                 | None \<Rightarrow> Inl (Exception (''[Errno 2] No such file or directory: '' @ quoted p)))))"

text \<open>
  \<^verbatim>\<open>os.listdir(p)\<close>: the names of the entries of a directory, of either kind; raises
  when \<^verbatim>\<open>p\<close> is not a directory.
\<close>

definition children :: "filesystem \<Rightarrow> path \<Rightarrow> string list" where
  "children fs d = map (\<lambda>(p, n). last p) (filter (\<lambda>(p, n). p \<noteq> [] \<and> butlast p = d) fs)"

definition listdir :: "filesystem \<Rightarrow> string \<Rightarrow> exn + string list" where
  "listdir fs p =
     (case walk fs [] (split_on CHR ''/'' p) of
        None \<Rightarrow> Inl (Exception (''[Errno 2] No such file or directory: '' @ quoted p))
      | Some d \<Rightarrow> Inr (children fs d))"

section \<open>The agent (\<^verbatim>\<open>my_rag.py\<close>)\<close>

text \<open>
  Chat messages are LangChain's \<^verbatim>\<open>HumanMessage\<close> and \<^verbatim>\<open>AIMessage\<close>, whose \<^verbatim>\<open>type\<close>
  attributes are \<^verbatim>\<open>"human"\<close> and \<^verbatim>\<open>"ai"\<close>. A document (a loaded page, or a chunk of
  one) has its text and its metadata.
\<close>

datatype message = HumanMessage string | AIMessage string

fun msg_type :: "message \<Rightarrow> string" where
  "msg_type (HumanMessage c) = ''human''"
| "msg_type (AIMessage c) = ''ai''"

fun msg_content :: "message \<Rightarrow> string" where
  "msg_content (HumanMessage c) = c"
| "msg_content (AIMessage c) = c"

record document =
  page_content :: string
  metadata :: "(string \<times> string) list"

text \<open>
  What \<^verbatim>\<open>generate_content\<close> returns: the attributes \<^verbatim>\<open>text\<close> and \<^verbatim>\<open>content\<close> may be
  missing, may raise when read, or hold a string; \<^verbatim>\<open>str(response)\<close> always exists.
\<close>

datatype attr = Missing | Raises string | Value string

record gen_response =
  text_attr :: attr
  content_attr :: attr
  str_response :: string

text \<open>
  The libraries and hosted services the agent calls are parameters of the model: each
  call either raises (\<^verbatim>\<open>Inl\<close> or \<^verbatim>\<open>Some\<close> of the message) or returns.
  \<^item> \<open>init_fault\<close>: a failure while the method \<^verbatim>\<open>_init_\<close> configures the SDK, the
    embeddings, the vector store, the splitter or the graph;
  \<^item> \<open>PyPDFLoader_load\<close>: \<^verbatim>\<open>PyPDFLoader(path).load()\<close> on a file's path and content;
  \<^item> \<open>split_documents\<close>: the text splitter;
  \<^item> \<open>add_documents_fault\<close>: \<^verbatim>\<open>vector_store.add_documents\<close> embeds all the chunks before
    it stores any, so it either raises and stores nothing or stores them all;
  \<^item> \<open>similarity_search\<close>: the nearest-neighbour search of the store's content for a
    query and a number of results;
  \<^item> \<open>generate_content\<close>: the hosted generation model, on a prompt;
  \<^item> \<open>invoke_fault\<close>: a failure of the graph runtime itself in \<^verbatim>\<open>graph.invoke\<close>.
\<close>

record env =
  init_fault :: "string option"
  PyPDFLoader_load :: "string \<Rightarrow> bytes \<Rightarrow> string + document list"
  split_documents :: "document list \<Rightarrow> string + document list"
  add_documents_fault :: "document list \<Rightarrow> string option"
  similarity_search :: "document list \<Rightarrow> string \<Rightarrow> nat \<Rightarrow> string + document list"
  generate_content :: "string \<Rightarrow> string + gen_response"
  invoke_fault :: "string option"

text \<open>
  The agent's mutable fields: the in-memory vector store, as the list of the chunks
  added to it, and the chat history.
\<close>

record agent =
  gemini_api_key :: string
  vector_store :: "document list"
  chat_history :: "message list"

text \<open>
  The method \<^verbatim>\<open>_init_\<close> of the class: on a new object it would set an empty vector store
  and an empty chat history. Its name is not \<^verbatim>\<open>__init__\<close>, so building an object does not
  run it, and nothing in the sources calls it.
\<close>

definition MyRAGAgent_init :: "env \<Rightarrow> string \<Rightarrow> exn + agent" where
  "MyRAGAgent_init env key =
     (if key = [] then Inl (Exception ''GEMINI_API_KEY is required to initialize MyRAGAgent'')
      else (case init_fault env of
              Some e \<Rightarrow> Inl (Exception (''RAG Agent initialization failed: '' @ e))
            | None \<Rightarrow> Inr \<lparr>gemini_api_key = key, vector_store = [], chat_history = []\<rparr>))"

text \<open>
  The call \<^verbatim>\<open>MyRAGAgent(gemini_api_key=key)\<close>: the class has no \<^verbatim>\<open>__init__\<close>, so Python's
  \<^verbatim>\<open>object\<close> refuses the argument, for every key.
\<close>

definition MyRAGAgent :: "string \<Rightarrow> exn + agent" where
  "MyRAGAgent key = Inl (Exception ''MyRAGAgent() takes no arguments'')"

subsection \<open>\<^verbatim>\<open>load_documents\<close>\<close>

text \<open>
  The loop over \<^verbatim>\<open>pdf_paths\<close>: a path that does not exist, is not named as a PDF, fails
  to load or loads nothing is skipped; the pages of the others are collected in order.
\<close>

fun load_loop :: "env \<Rightarrow> filesystem \<Rightarrow> string list \<Rightarrow> document list \<Rightarrow> document list" where
  "load_loop env fs [] docs = docs"
| "load_loop env fs (pdf_path # rest) docs =
     (if \<not> path_exists fs pdf_path then load_loop env fs rest docs
      else if \<not> is_pdf_name pdf_path then load_loop env fs rest docs
      else (case stat fs pdf_path of
              Some (File bs) \<Rightarrow>
                (case PyPDFLoader_load env pdf_path bs of
                   Inl e \<Rightarrow> load_loop env fs rest docs
                 | Inr loaded_docs \<Rightarrow>
                     (if loaded_docs = [] then load_loop env fs rest docs
                      else load_loop env fs rest (docs @ loaded_docs)))
            | _ \<Rightarrow> load_loop env fs rest docs))"

definition load_documents :: "env \<Rightarrow> filesystem \<Rightarrow> agent \<Rightarrow> string list \<Rightarrow> exn + agent" where
  "load_documents env fs self pdf_paths =
     (if pdf_paths = [] then Inr self
      else
        (let docs = load_loop env fs pdf_paths []
         in if docs = [] then Inl (Exception ''Failed to load any documents'')
            else (case split_documents env docs of
                    Inl e \<Rightarrow> Inl (Exception (''Document processing failed: '' @ e))
                  | Inr all_splits \<Rightarrow>
                      (if all_splits = []
                       then Inl (Exception (''Document processing failed: '' @
                                            ''Document splitting resulted in no chunks''))
                       else (case add_documents_fault env all_splits of
                               Some e \<Rightarrow> Inl (Exception (''Document processing failed: '' @ e))
                             | None \<Rightarrow>
                                 Inr (self\<lparr>vector_store := vector_store self @ all_splits\<rparr>))))))"

subsection \<open>The graph: \<^verbatim>\<open>retrieve\<close> and \<^verbatim>\<open>generate\<close>\<close>

text \<open>
  The graph state is the dictionary with the keys \<^verbatim>\<open>messages\<close>, \<^verbatim>\<open>question\<close>,
  \<^verbatim>\<open>context\<close> and \<^verbatim>\<open>answer\<close>; no key has a reducer, so a node's returned value for a
  key replaces the old one. Each node also reports what it did: the events below record
  the nodes entered, the searches of the vector store (its content, the query and the
  number of results asked for) and the calls of the generation model (the prompt).
\<close>

record state =
  st_messages :: "message list"
  st_question :: string
  st_context :: "document list"
  st_answer :: string

datatype event = Node string | SimilaritySearch "document list" string nat | GenerateContent string

definition retrieve :: "env \<Rightarrow> agent \<Rightarrow> state \<Rightarrow> state \<times> event list" where
  "retrieve env self st =
     (let question = st_question st
      in if question = [] then (st\<lparr>st_context := []\<rparr>, [])
         else (case similarity_search env (vector_store self) question 4 of
                 Inr retrieved_docs \<Rightarrow>
                   (st\<lparr>st_context := retrieved_docs\<rparr>, [SimilaritySearch (vector_store self) question 4])
               | Inl e \<Rightarrow> (st\<lparr>st_context := []\<rparr>, [SimilaritySearch (vector_store self) question 4])))"

text \<open>The prompt of \<^verbatim>\<open>generate\<close>, built from the context, the history and the question.\<close>

definition doc_entry :: "nat \<times> document \<Rightarrow> string" where
  "doc_entry p =
     (case p of (i, doc) \<Rightarrow>
        (if length (page_content doc) > 800
         then ''Document '' @ str_nat (i + 1) @ '':\<newline>'' @ take 800 (page_content doc) @ ''...''
         else ''Document '' @ str_nat (i + 1) @ '':\<newline>'' @ page_content doc))"

definition docs_content :: "document list \<Rightarrow> string" where
  "docs_content context_docs =
     (if context_docs \<noteq> []
      then join ''\<newline>\<newline>'' (map doc_entry (enumerate 0 context_docs))
      else [])"

definition history_text :: "message list \<Rightarrow> string" where
  "history_text messages =
     (if messages \<noteq> []
      then join ''\<newline>'' (map (\<lambda>msg. msg_type msg @ '': '' @ msg_content msg) (last_n 10 messages))
      else [])"

definition prompt_text :: "document list \<Rightarrow> message list \<Rightarrow> string \<Rightarrow> string" where
  "prompt_text context_docs messages question =
     (let context_section =
            (if docs_content context_docs \<noteq> []
             then ''Relevant Information:\<newline>'' @ docs_content context_docs @ ''\<newline>\<newline>'' else []);
          history_section =
            (if history_text messages \<noteq> []
             then ''Recent Conversation:\<newline>'' @ history_text messages @ ''\<newline>\<newline>'' else [])
      in ''You are a helpful AI assistant that answers questions based on provided documents and conversation context.\<newline>\<newline>''
         @ context_section @ history_section @ ''Current Question: '' @ question
         @ ''\<newline>\<newline>Instructions:\<newline>''
         @ ''- Answer the question clearly and helpfully\<newline>''
         @ ''- Use information from the provided documents when relevant\<newline>''
         @ ''- If the documents don't contain relevant information, say so clearly\<newline>''
         @ ''- Be concise but comprehensive\<newline>''
         @ ''- Maintain conversation context when appropriate\<newline>\<newline>''
         @ ''Answer:'')"

text \<open>
  Reading the generated text off the response: \<^verbatim>\<open>response.text\<close> when it is there and
  not empty, else \<^verbatim>\<open>response.content\<close>, else \<^verbatim>\<open>str(response)\<close>. An attribute that
  raises when read makes the whole step fail.
\<close>

definition gen_text_of :: "gen_response \<Rightarrow> string + string" where
  "gen_text_of response =
     (case text_attr response of
        Raises e \<Rightarrow> Inl e
      | Value t \<Rightarrow>
          (if t \<noteq> [] then Inr t
           else (case content_attr response of
                   Raises e \<Rightarrow> Inl e
                 | Value c \<Rightarrow> (if c \<noteq> [] then Inr c else Inr (str_response response))
                 | Missing \<Rightarrow> Inr (str_response response)))
      | Missing \<Rightarrow>
          (case content_attr response of
             Raises e \<Rightarrow> Inl e
           | Value c \<Rightarrow> (if c \<noteq> [] then Inr c else Inr (str_response response))
           | Missing \<Rightarrow> Inr (str_response response)))"

definition error_message :: string where
  "error_message = ''I apologize, but I encountered an error while generating a response. Please try again.''"

definition generate :: "env \<Rightarrow> agent \<Rightarrow> state \<Rightarrow> state \<times> event list" where
  "generate env self st =
     (let question = st_question st;
          prompt = prompt_text (st_context st) (st_messages st) question;
          failed = st\<lparr>st_answer := error_message,
                      st_messages := [HumanMessage question, AIMessage error_message]\<rparr>
      in (case generate_content env prompt of
            Inl e \<Rightarrow> (failed, [GenerateContent prompt])
          | Inr response \<Rightarrow>
              (case gen_text_of response of
                 Inl e \<Rightarrow> (failed, [GenerateContent prompt])
               | Inr gen_text \<Rightarrow>
                   (st\<lparr>st_answer := gen_text,
                       st_messages := [HumanMessage question, AIMessage gen_text]\<rparr>,
                    [GenerateContent prompt]))))"

text \<open>
  \<^verbatim>\<open>_setup_graph\<close>: \<^verbatim>\<open>add_sequence([retrieve, generate])\<close> names each node after its
  function and chains them; the edge from \<^verbatim>\<open>START\<close> enters \<^verbatim>\<open>retrieve\<close>.
  \<^verbatim>\<open>graph.invoke\<close> runs the nodes of the sequence one after the other on the state, and
  returns the final state. A failure of the runtime itself raises before any result.
\<close>

definition graph :: "(string \<times> (env \<Rightarrow> agent \<Rightarrow> state \<Rightarrow> state \<times> event list)) list" where
  "graph = [(''retrieve'', retrieve), (''generate'', generate)]"

fun run_nodes ::
  "(string \<times> (env \<Rightarrow> agent \<Rightarrow> state \<Rightarrow> state \<times> event list)) list \<Rightarrow>
   env \<Rightarrow> agent \<Rightarrow> state \<Rightarrow> state \<times> event list" where
  "run_nodes [] env self st = (st, [])"
| "run_nodes ((name, f) # rest) env self st =
     (case f env self st of
        (st1, evs1) \<Rightarrow>
          (case run_nodes rest env self st1 of
             (st2, evs2) \<Rightarrow> (st2, Node name # evs1 @ evs2)))"

definition invoke :: "env \<Rightarrow> agent \<Rightarrow> state \<Rightarrow> exn + state \<times> event list" where
  "invoke env self st =
     (case invoke_fault env of
        Some e \<Rightarrow> Inl (Exception e)
      | None \<Rightarrow> Inr (run_nodes graph env self st))"

subsection \<open>\<^verbatim>\<open>ask\<close>\<close>

text \<open>
  \<^verbatim>\<open>ask\<close> returns the answer or raises, leaves the agent with its new history, and (in
  the model) reports the events of the graph run. \<open>ask_state\<close> is the dictionary it
  passes to the graph.
\<close>

definition ask_state :: "agent \<Rightarrow> string \<Rightarrow> state" where
  "ask_state self question =
     \<lparr>st_messages = chat_history self, st_question = strip question,
      st_context = [], st_answer = []\<rparr>"

definition ask :: "env \<Rightarrow> agent \<Rightarrow> string \<Rightarrow> (exn + string) \<times> agent \<times> event list" where
  "ask env self question =
     (if strip question = [] then (Inl (Exception ''Question cannot be empty''), self, [])
      else
        (case invoke env self (ask_state self question) of
           Inl e \<Rightarrow>
             (Inl (Exception (''Failed to generate response: '' @ str_exn e)), self, [])
         | Inr (response, evs) \<Rightarrow>
             (let self1 =
                    (if st_messages response \<noteq> []
                     then (let h = chat_history self @ st_messages response
                           in self\<lparr>chat_history := (if length h > 20 then last_n 20 h else h)\<rparr>)
                     else self)
              in (Inr (st_answer response), self1, evs))))"

section \<open>The endpoints (\<^verbatim>\<open>main.py\<close>)\<close>

text \<open>
  The module's globals: the API key read from the environment, the agent (\<^verbatim>\<open>None\<close> when
  there is none), the path of the PDFs directory; and the file system.
\<close>

record server =
  GEMINI_API_KEY :: "string option"
  my_rag_agent :: "agent option"
  pdfs_dir :: string
  disk :: filesystem

text \<open>\<^verbatim>\<open>not GEMINI_API_KEY\<close>: the variable is unset or empty.\<close>

definition no_key :: "string option \<Rightarrow> bool" where
  "no_key k = (case k of None \<Rightarrow> True | Some key \<Rightarrow> key = [])"

text \<open>
  What FastAPI sends for an endpoint's outcome: 200 for a returned value, the status
  code of a raised \<^verbatim>\<open>HTTPException\<close>, and 500 for any other exception.
\<close>

fun status_code :: "exn + 'a \<Rightarrow> nat" where
  "status_code (Inr r) = 200"
| "status_code (Inl (HTTPException code detail)) = code"
| "status_code (Inl (Exception msg)) = 500"

text \<open>
  The two shapes of handler: \<^verbatim>\<open>except HTTPException: raise\<close> followed by
  \<^verbatim>\<open>except Exception as e\<close>, which turns the other exceptions into a 500 whose detail is a
  prefix and \<^verbatim>\<open>str(e)\<close>; and \<^verbatim>\<open>except Exception as e\<close> alone, which turns every exception
  into the 500, an \<^verbatim>\<open>HTTPException\<close> too.
\<close>

fun except_keep_http :: "string \<Rightarrow> exn + 'a \<Rightarrow> exn + 'a" where
  "except_keep_http prefix (Inr r) = Inr r"
| "except_keep_http prefix (Inl (HTTPException code detail)) = Inl (HTTPException code detail)"
| "except_keep_http prefix (Inl (Exception msg)) = Inl (HTTPException 500 (prefix @ msg))"

fun except_all :: "string \<Rightarrow> exn + 'a \<Rightarrow> exn + 'a" where
  "except_all prefix (Inr r) = Inr r"
| "except_all prefix (Inl e) = Inl (HTTPException 500 (prefix @ str_exn e))"

subsection \<open>\<^verbatim>\<open>POST /upload-pdf\<close>\<close>

record upload_file =
  filename :: "string option"
  content :: bytes

record upload_response =
  up_message :: string
  up_filename :: string
  up_status :: string

definition upload_try :: "env \<Rightarrow> upload_file \<Rightarrow> server \<Rightarrow> (exn + upload_response) \<times> server" where
  "upload_try env file s =
     (case my_rag_agent s of
        None \<Rightarrow>
          (Inl (HTTPException 503
                  ''RAG Agent is not initialized. Please check server configuration.''), s)
      | Some a \<Rightarrow>
          (case filename file of
             None \<Rightarrow> (Inl (HTTPException 400 ''No file provided''), s)
           | Some name \<Rightarrow>
               (if name = [] then (Inl (HTTPException 400 ''No file provided''), s)
                else if \<not> is_pdf_name name
                then (Inl (HTTPException 400 ''Only PDF files are allowed''), s)
                else if length (content file) > 50 * 1024 * 1024
                then (Inl (HTTPException 413 ''File too large. Maximum size is 50MB.''), s)
                else
                  (let file_path = path_join (pdfs_dir s) name
                   in (case write_file (disk s) file_path (content file) of
                         Inl e \<Rightarrow> (Inl e, s)
                       | Inr fs1 \<Rightarrow>
                           (case load_documents env fs1 a [file_path] of
                              Inl e \<Rightarrow> (Inl e, s\<lparr>disk := fs1\<rparr>)
                            | Inr a1 \<Rightarrow>
                                (Inr \<lparr>up_message = ''Successfully uploaded and processed '' @ name,
                                      up_filename = name, up_status = ''success''\<rparr>,
                                 s\<lparr>disk := fs1, my_rag_agent := Some a1\<rparr>)))))))"

definition upload_pdf :: "env \<Rightarrow> upload_file \<Rightarrow> server \<Rightarrow> (exn + upload_response) \<times> server" where
  "upload_pdf env file s =
     (case upload_try env file s of
        (r, s1) \<Rightarrow> (except_keep_http ''Internal server error: '' r, s1))"

subsection \<open>\<^verbatim>\<open>POST /chat\<close>\<close>

record chat_response =
  response :: string
  chat_status :: string

definition chat_try ::
  "env \<Rightarrow> string \<Rightarrow> server \<Rightarrow> (exn + chat_response) \<times> server \<times> event list" where
  "chat_try env message s =
     (case my_rag_agent s of
        None \<Rightarrow>
          (Inl (HTTPException 503
                  ''RAG Agent is not initialized. Please check server configuration.''), s, [])
      | Some a \<Rightarrow>
          (if strip message = [] then (Inl (HTTPException 400 ''Message cannot be empty''), s, [])
           else (case ask env a message of
                   (Inl e, a1, evs) \<Rightarrow> (Inl e, s\<lparr>my_rag_agent := Some a1\<rparr>, evs)
                 | (Inr answer, a1, evs) \<Rightarrow>
                     (Inr \<lparr>response = answer, chat_status = ''success''\<rparr>,
                      s\<lparr>my_rag_agent := Some a1\<rparr>, evs))))"

definition chat ::
  "env \<Rightarrow> string \<Rightarrow> server \<Rightarrow> (exn + chat_response) \<times> server \<times> event list" where
  "chat env message s =
     (case chat_try env message s of
        (r, s1, evs) \<Rightarrow> (except_keep_http ''Failed to generate response: '' r, s1, evs))"

subsection \<open>\<^verbatim>\<open>GET /status\<close>\<close>

record status_response =
  status :: string
  rag_agent_ready :: bool
  pdfs_directory :: string
  documents_loaded :: nat

definition get_status :: "server \<Rightarrow> exn + status_response" where
  "get_status s =
     except_all ''Failed to get status: ''
       (case listdir (disk s) (pdfs_dir s) of
          Inl e \<Rightarrow> Inl e
        | Inr names \<Rightarrow>
            Inr \<lparr>status = ''running'',
                 rag_agent_ready = (my_rag_agent s \<noteq> None),
                 pdfs_directory = pdfs_dir s,
                 documents_loaded = length (filter is_pdf_name names)\<rparr>)"

subsection \<open>\<^verbatim>\<open>DELETE /reset\<close>\<close>

text \<open>
  The loop over the listing removes each entry named as a PDF; the first removal that
  raises ends it, the entries removed so far staying removed.
\<close>

fun remove_pdfs :: "string \<Rightarrow> string list \<Rightarrow> filesystem \<Rightarrow> exn option \<times> filesystem" where
  "remove_pdfs dir [] fs = (None, fs)"
| "remove_pdfs dir (name # rest) fs =
     (if is_pdf_name name
      then (case remove fs (path_join dir name) of
              Inl e \<Rightarrow> (Some e, fs)
            | Inr fs1 \<Rightarrow> remove_pdfs dir rest fs1)
      else remove_pdfs dir rest fs)"

record reset_response =
  reset_message :: string
  reset_status :: string

definition reset_try :: "env \<Rightarrow> server \<Rightarrow> (exn + reset_response) \<times> server" where
  "reset_try env s =
     (case my_rag_agent s of
        None \<Rightarrow> (Inl (HTTPException 503 ''RAG Agent is not initialized''), s)
      | Some a \<Rightarrow>
          (case listdir (disk s) (pdfs_dir s) of
             Inl e \<Rightarrow> (Inl e, s)
           | Inr names \<Rightarrow>
               (case remove_pdfs (pdfs_dir s) names (disk s) of
                  (Some e, fs1) \<Rightarrow> (Inl e, s\<lparr>disk := fs1\<rparr>)
                | (None, fs1) \<Rightarrow>
                    (if no_key (GEMINI_API_KEY s)
                     then (Inl (HTTPException 503 ''GEMINI_API_KEY not available''),
                           s\<lparr>disk := fs1\<rparr>)
                     else (case MyRAGAgent (the (GEMINI_API_KEY s)) of
                             Inl e \<Rightarrow> (Inl e, s\<lparr>disk := fs1\<rparr>)
                           | Inr a1 \<Rightarrow>
                               (Inr \<lparr>reset_message =
                                       ''All documents and chat history have been reset'',
                                     reset_status = ''success''\<rparr>,
                                s\<lparr>disk := fs1, my_rag_agent := Some a1\<rparr>))))))"

definition reset_documents :: "env \<Rightarrow> server \<Rightarrow> (exn + reset_response) \<times> server" where
  "reset_documents env s =
     (case reset_try env s of
        (r, s1) \<Rightarrow> (except_all ''Failed to reset documents: '' r, s1))"

subsection \<open>Requests\<close>

text \<open>
  The server handles one request after the other; each request meets the outside world
  (the libraries and hosted services) as it is at that moment.
\<close>

datatype request = UploadPdf upload_file | Chat string | GetStatus | Reset

fun handle :: "env \<Rightarrow> request \<Rightarrow> server \<Rightarrow> server" where
  "handle env (UploadPdf file) s = snd (upload_pdf env file s)"
| "handle env (Chat message) s = fst (snd (chat env message s))"
| "handle env GetStatus s = s"
| "handle env Reset s = snd (reset_documents env s)"

fun serve :: "(env \<times> request) list \<Rightarrow> server \<Rightarrow> server" where
  "serve [] s = s"
| "serve ((env, req) # rest) s = serve rest (handle env req s)"

section \<open>Vocabulary of the properties\<close>

text \<open>
  A file system is well formed when no path is listed twice and no component name holds
  the separator, as on every POSIX file system.
\<close>

definition wf_fs :: "filesystem \<Rightarrow> bool" where
  "wf_fs fs = (distinct (map fst fs) \<and> (\<forall>p\<in>set (map fst fs). \<forall>c\<in>set p. CHR ''/'' \<notin> set c))"

text \<open>An upload is too large when its content is over the 50MB of \<open>upload_try\<close>.\<close>

definition too_large :: "upload_file \<Rightarrow> bool" where
  "too_large file = (length (content file) > 50 * 1024 * 1024)"

section \<open>Example values\<close>

text \<open>
  A world where every library call and hosted service answers, an agent with an empty
  index and history, and a server whose PDFs directory \<^verbatim>\<open>/app/pdfs\<close> exists and is empty.
\<close>

definition example_env :: env where
  "example_env =
     \<lparr>init_fault = None,
      PyPDFLoader_load = (\<lambda>p bs. Inr [\<lparr>page_content = ''page one'', metadata = []\<rparr>]),
      split_documents = (\<lambda>ds. Inr ds),
      add_documents_fault = (\<lambda>ds. None),
      similarity_search = (\<lambda>store q k. Inr (take k store)),
      generate_content =
        (\<lambda>p. Inr \<lparr>text_attr = Value ''fine'', content_attr = Missing, str_response = ''r''\<rparr>),
      invoke_fault = None\<rparr>"

definition example_agent :: agent where
  "example_agent = \<lparr>gemini_api_key = ''k'', vector_store = [], chat_history = []\<rparr>"

definition example_server :: server where
  "example_server =
     \<lparr>GEMINI_API_KEY = Some ''k'', my_rag_agent = Some example_agent,
      pdfs_dir = ''/app/pdfs'', disk = [([''app''], Dir), ([''app'', ''pdfs''], Dir)]\<rparr>"

text \<open>
  Worlds where one service is down: the generation model raises on every prompt, the
  graph runtime raises, the similarity search raises.
\<close>

definition env_generation_down :: env where
  "env_generation_down = example_env\<lparr>generate_content := (\<lambda>p. Inl ''429 quota exceeded'')\<rparr>"

definition env_runtime_down :: env where
  "env_runtime_down = example_env\<lparr>invoke_fault := Some ''checkpoint failed''\<rparr>"

definition env_search_down :: env where
  "env_search_down = example_env\<lparr>similarity_search := (\<lambda>store q k. Inl ''embedding failed'')\<rparr>"

text \<open>
  A world where the PDF loader finds no page in any file; an upload and the page the
  example loader extracts from it; a server with an index, a history and two stored files.
\<close>

definition env_empty_pdf :: env where
  "env_empty_pdf = example_env\<lparr>PyPDFLoader_load := (\<lambda>p bs. Inr [])\<rparr>"

definition example_upload :: upload_file where
  "example_upload = \<lparr>filename = Some ''a.pdf'', content = [1, 2]\<rparr>"

definition example_page :: document where
  "example_page = \<lparr>page_content = ''page one'', metadata = []\<rparr>"

definition stocked_server :: server where
  "stocked_server =
     \<lparr>GEMINI_API_KEY = Some ''k'',
      my_rag_agent = Some \<lparr>gemini_api_key = ''k'', vector_store = [example_page],
                           chat_history = [HumanMessage ''hi'', AIMessage ''fine'']\<rparr>,
      pdfs_dir = ''/app/pdfs'',
      disk = [([''app''], Dir), ([''app'', ''pdfs''], Dir),
              ([''app'', ''pdfs'', ''a.PDF''], File [1, 2]),
              ([''app'', ''pdfs'', ''notes.txt''], File [3])]\<rparr>"

section \<open>Paths and the file system\<close>

lemma split_on_not_Nil: "split_on c s \<noteq> []"
  by (induction s) (auto split: list.splits)

lemma split_on_free: "x \<in> set (split_on c s) \<Longrightarrow> c \<notin> set x"
  by (induction s arbitrary: x) (auto split: list.splits if_splits)

lemma split_on_plain: "c \<notin> set n \<Longrightarrow> split_on c n = [n]"
  by (induction n) auto

lemma split_on_append: "split_on c (xs @ c # ys) = split_on c xs @ split_on c ys"
  by (induction xs) (auto split: list.splits simp: split_on_not_Nil)

lemma walk_append:
  "walk fs cur (as @ bs) = (case walk fs cur as of None \<Rightarrow> None | Some d \<Rightarrow> walk fs d bs)"
  by (induction as arbitrary: cur) (auto split: option.splits node.splits)

lemma walk_components: "walk fs cur cs = Some d \<Longrightarrow> set d \<subseteq> set cur \<union> set cs"
proof (induction cs arbitrary: cur)
  case Nil
  then show ?case by simp
next
  case (Cons c cs)
  show ?case
  proof (cases "c = [] \<or> c = ''.''")
    case True
    with Cons show ?thesis by auto
  next
    case False
    show ?thesis
    proof (cases "c = ''..''")
      case True
      with Cons.prems have "walk fs (butlast cur) cs = Some d" by simp
      from Cons.IH[OF this] have "set d \<subseteq> set (butlast cur) \<union> set cs" .
      moreover have "set (butlast cur) \<subseteq> set cur" by (meson in_set_butlastD subsetI)
      ultimately show ?thesis by auto
    next
      case F2: False
      with False Cons.prems have "walk fs (cur @ [c]) cs = Some d"
        by (auto split: option.splits node.splits)
      from Cons.IH[OF this] show ?thesis by auto
    qed
  qed
qed

lemma walk_cong:
  "(\<And>p. (node_at fs' p = Some Dir) = (node_at fs p = Some Dir)) \<Longrightarrow> walk fs' cur cs = walk fs cur cs"
proof (induction cs arbitrary: cur)
  case Nil
  then show ?case by simp
next
  case (Cons c cs)
  have IH: "\<And>d. walk fs' d cs = walk fs d cs" using Cons by blast
  have eq: "(node_at fs' (cur @ [c]) = Some Dir) = (node_at fs (cur @ [c]) = Some Dir)"
    using Cons.prems by blast
  show ?case
  proof (cases "node_at fs (cur @ [c]) = Some Dir")
    case True
    with eq have T': "node_at fs' (cur @ [c]) = Some Dir" by simp
    show ?thesis by (simp add: True T' IH)
  next
    case False
    with eq have F': "node_at fs' (cur @ [c]) \<noteq> Some Dir" by simp
    from False have a: "(case node_at fs (cur @ [c]) of Some Dir \<Rightarrow> walk fs (cur @ [c]) cs | _ \<Rightarrow> None) = None"
      by (auto split: option.splits node.splits)
    from F' have b: "(case node_at fs' (cur @ [c]) of Some Dir \<Rightarrow> walk fs' (cur @ [c]) cs | _ \<Rightarrow> None) = None"
      by (auto split: option.splits node.splits)
    show ?thesis by (simp add: a b IH)
  qed
qed

lemma node_at_update:
  "k \<noteq> [] \<Longrightarrow> node_at (AList.update k v fs) p = (if p = k then Some v else node_at fs p)"
  by (simp add: node_at_def update_conv')

lemma node_at_delete:
  "k \<noteq> [] \<Longrightarrow> node_at (AList.delete k fs) p = (if p = k then None else node_at fs p)"
  by (simp add: node_at_def delete_conv')

lemma walk_update_file:
  "k \<noteq> [] \<Longrightarrow> node_at fs k \<noteq> Some Dir \<Longrightarrow> walk (AList.update k (File bs) fs) cur cs = walk fs cur cs"
  by (rule walk_cong) (simp add: node_at_update)

lemma walk_delete_file:
  "k \<noteq> [] \<Longrightarrow> node_at fs k \<noteq> Some Dir \<Longrightarrow> walk (AList.delete k fs) cur cs = walk fs cur cs"
  by (rule walk_cong) (simp add: node_at_delete)

lemma resolve_join_plain:
  assumes "CHR ''/'' \<notin> set n"
  shows "resolve fs (path_join a n) =
           (case walk fs [] (split_on CHR ''/'' a) of None \<Rightarrow> None | Some d \<Rightarrow> Some (d, n))"
proof -
  have ns: "\<not> startswith n ''/''" using assms by (cases n) (auto simp: startswith_def)
  show ?thesis
  proof (cases "a = []")
    case True
    then show ?thesis using ns assms by (simp add: path_join_def resolve_def split_on_plain)
  next
    case False
    show ?thesis
    proof (cases "endswith a ''/''")
      case True
      then have "drop (length a - 1) a = ''/''" by (simp add: endswith_def)
      moreover have "a = butlast a @ [last a]" using False by simp
      then have "drop (length a - 1) a = [last a]"
        by (metis append_eq_conv_conj length_butlast)
      ultimately have "last a = CHR ''/''" by simp
      with \<open>a = butlast a @ [last a]\<close> have "a = butlast a @ ''/''" by simp
      then obtain a' where a': "a = a' @ ''/''" by blast
      have "path_join a n = a' @ CHR ''/'' # n" using True False ns a' by (simp add: path_join_def)
      moreover have "split_on CHR ''/'' a = split_on CHR ''/'' a' @ [[]]"
        using a' split_on_append[of "CHR ''/''" a' "[]"] by simp
      ultimately show ?thesis using assms
        by (simp add: resolve_def split_on_append split_on_plain walk_append split: option.splits)
    next
      case F2: False
      then have "path_join a n = a @ CHR ''/'' # n" using False ns by (simp add: path_join_def)
      then show ?thesis using assms
        by (simp add: resolve_def split_on_append split_on_plain split: option.splits)
    qed
  qed
qed

lemma children_delete:
  "children (AList.delete (d @ [n]) fs) d = filter (\<lambda>m. m \<noteq> n) (children fs d)"
proof (induction fs)
  case Nil
  then show ?case by (simp add: children_def)
next
  case (Cons x fs)
  obtain p v where x: "x = (p, v)" by (cases x)
  have key: "p \<noteq> [] \<Longrightarrow> butlast p = d \<Longrightarrow> (p = d @ [n]) = (last p = n)"
    by (metis append_butlast_last_id last_snoc)
  from Cons show ?case
    unfolding children_def x using key by auto
qed

section \<open>Strings, the graph and \<^verbatim>\<open>ask\<close>\<close>

lemma all_dropWhile: "(\<forall>x\<in>set (dropWhile P s). P x) = (\<forall>x\<in>set s. P x)"
  by (induction s) auto

lemma strip_empty_iff: "(strip s = []) = (\<forall>c\<in>set s. is_space c)"
  by (simp add: strip_def dropWhile_eq_Nil_conv all_dropWhile)

lemma last_n_short: "length xs \<le> n \<Longrightarrow> last_n n xs = xs"
  by (simp add: last_n_def)

lemma length_last_n: "length (last_n n xs) \<le> n"
  by (simp add: last_n_def)

lemma retrieve_fst:
  "fst (retrieve env a st) =
     st\<lparr>st_context := (if st_question st = [] then []
                        else (case similarity_search env (vector_store a) (st_question st) 4 of
                                Inr docs \<Rightarrow> docs | Inl e \<Rightarrow> []))\<rparr>"
  by (simp add: retrieve_def Let_def split: sum.splits)

lemma retrieve_snd:
  "snd (retrieve env a st) =
     (if st_question st = [] then [] else [SimilaritySearch (vector_store a) (st_question st) 4])"
  by (simp add: retrieve_def Let_def split: sum.splits)

lemma generate_snd:
  "snd (generate env a st) =
     [GenerateContent (prompt_text (st_context st) (st_messages st) (st_question st))]"
  by (simp add: generate_def Let_def split: sum.splits)

lemma generate_messages:
  "st_messages (fst (generate env a st)) =
     [HumanMessage (st_question st), AIMessage (st_answer (fst (generate env a st)))]"
  by (simp add: generate_def Let_def split: sum.splits)

lemma generate_raises:
  "generate_content env (prompt_text (st_context st) (st_messages st) (st_question st)) = Inl e
   \<Longrightarrow> st_answer (fst (generate env a st)) = error_message"
  by (simp add: generate_def Let_def)

lemma run_graph:
  "run_nodes graph env a st =
     (fst (generate env a (fst (retrieve env a st))),
      Node ''retrieve'' # snd (retrieve env a st) @
      Node ''generate'' # snd (generate env a (fst (retrieve env a st))))"
  by (simp add: graph_def split: prod.splits)

lemma ask_runs:
  assumes "strip q \<noteq> []" and "invoke_fault env = None"
  shows "ask env a q =
           (Inr (st_answer (fst (generate env a (fst (retrieve env a (ask_state a q)))))),
            a\<lparr>chat_history :=
                 last_n 20 (chat_history a @
                   st_messages (fst (generate env a (fst (retrieve env a (ask_state a q))))))\<rparr>,
            Node ''retrieve'' # snd (retrieve env a (ask_state a q)) @
            Node ''generate'' # snd (generate env a (fst (retrieve env a (ask_state a q)))))"
  using assms
  by (simp add: ask_def invoke_def run_graph generate_messages last_n_short Let_def)

lemma ask_blank: "strip q = [] \<Longrightarrow> ask env a q = (Inl (Exception ''Question cannot be empty''), a, [])"
  by (simp add: ask_def)

lemma ask_fault:
  "strip q \<noteq> [] \<Longrightarrow> invoke_fault env = Some e \<Longrightarrow>
   ask env a q = (Inl (Exception (''Failed to generate response: '' @ e)), a, [])"
  by (simp add: ask_def invoke_def)

lemma is_pdf_name_Nil: "\<not> is_pdf_name []"
  by (simp add: is_pdf_name_def endswith_def lower_def)

lemma ask_Inr_D: "fst (ask env a q) = Inr ans \<Longrightarrow> strip q \<noteq> [] \<and> invoke_fault env = None"
  by (cases "invoke_fault env") (auto simp add: ask_def invoke_def split: if_splits)

lemma retrieve_question: "st_question (fst (retrieve env a st)) = st_question st"
  by (simp add: retrieve_fst)

lemma chat_runs:
  assumes "my_rag_agent s = Some a" and "strip message \<noteq> []" and "invoke_fault env = None"
  shows "fst (chat env message s) =
           Inr \<lparr>response = st_answer (fst (generate env a (fst (retrieve env a (ask_state a message))))),
                chat_status = ''success''\<rparr>"
  using assms by (simp add: chat_def chat_try_def ask_runs)

lemma chat_fault:
  assumes "my_rag_agent s = Some a" and "strip message \<noteq> []" and "invoke_fault env = Some e"
  shows "fst (chat env message s) =
           Inl (HTTPException 500 (''Failed to generate response: '' @ ''Failed to generate response: '' @ e))"
  using assms by (simp add: chat_def chat_try_def ask_fault)

section \<open>Files, loading and the endpoints\<close>

lemma snoc_cases: "(if p \<noteq> [] \<and> butlast p = d then {last p} else {}) = {n. p = d @ [n]}"
proof (cases "p \<noteq> [] \<and> butlast p = d")
  case True
  then have p: "p = d @ [last p]" by (metis append_butlast_last_id)
  have "{n. p = d @ [n]} = {last p}"
  proof
    show "{n. p = d @ [n]} \<subseteq> {last p}" by (metis (mono_tags, lifting) last_snoc mem_Collect_eq singletonI subsetI)
    show "{last p} \<subseteq> {n. p = d @ [n]}" using p by blast
  qed
  with True show ?thesis by simp
next
  case False
  then have "\<And>n. p \<noteq> d @ [n]" by (metis butlast_snoc snoc_eq_iff_butlast)
  with False show ?thesis by auto
qed

lemma set_children: "set (children fs d) = {n. d @ [n] \<in> fst ` set fs}"
proof (induction fs)
  case Nil
  then show ?case by (simp add: children_def)
next
  case (Cons x fs)
  obtain p v where x: "x = (p, v)" by (cases x)
  have "set (children (x # fs) d) =
          (if p \<noteq> [] \<and> butlast p = d then {last p} else {}) \<union> set (children fs d)"
    by (simp add: children_def x)
  also have "\<dots> = {n. p = d @ [n]} \<union> {n. d @ [n] \<in> fst ` set fs}"
    by (simp only: snoc_cases Cons.IH)
  also have "\<dots> = {n. d @ [n] \<in> fst ` set (x # fs)}"
    by (auto simp add: x)
  finally show ?case .
qed

lemma distinct_children: "distinct (map fst fs) \<Longrightarrow> distinct (children fs d)"
proof (induction fs)
  case Nil
  then show ?case by (simp add: children_def)
next
  case (Cons x fs)
  obtain p v where x: "x = (p, v)" by (cases x)
  from Cons have d: "distinct (children fs d)" and np: "p \<notin> fst ` set fs" by (auto simp: x)
  show ?case
  proof (cases "p \<noteq> [] \<and> butlast p = d")
    case True
    then have p: "p = d @ [last p]" by (metis append_butlast_last_id)
    have "children (x # fs) d = last p # children fs d" using True by (simp add: children_def x)
    moreover have "last p \<notin> set (children fs d)" using np p by (simp add: set_children)
    ultimately show ?thesis using d by simp
  next
    case False
    then have "children (x # fs) d = children fs d" by (auto simp add: children_def x)
    with d show ?thesis by simp
  qed
qed

lemma node_at_snoc: "(node_at fs (d @ [n]) \<noteq> None) = (d @ [n] \<in> fst ` set fs)"
  by (simp add: node_at_def map_of_eq_None_iff)

lemma write_file_D:
  assumes "write_file fs p c = Inr fs1"
  shows "\<exists>d l. resolve fs p = Some (d, l) \<and> \<not> names_dir l \<and> node_at fs (d @ [l]) \<noteq> Some Dir \<and>
               fs1 = AList.update (d @ [l]) (File c) fs"
  using assms
  by (auto simp add: write_file_def split: option.splits if_splits node.splits)

lemma remove_D:
  assumes "remove fs p = Inr fs1"
  shows "\<exists>d l. resolve fs p = Some (d, l) \<and> \<not> names_dir l \<and> node_at fs (d @ [l]) \<noteq> Some Dir \<and>
               fs1 = AList.delete (d @ [l]) fs"
  using assms
  by (auto simp add: remove_def split: option.splits if_splits node.splits)

lemma resolve_components:
  assumes "resolve fs p = Some (d, l)"
  shows "\<forall>c\<in>set (d @ [l]). CHR ''/'' \<notin> set c"
proof -
  let ?cs = "split_on CHR ''/'' p"
  from assms have w: "walk fs [] (butlast ?cs) = Some d" and l: "l = last ?cs"
    by (auto simp add: resolve_def Let_def split: option.splits)
  from walk_components[OF w] have "set d \<subseteq> set (butlast ?cs)" by simp
  then have "set d \<subseteq> set ?cs" by (meson in_set_butlastD subsetD subsetI)
  moreover have "l \<in> set ?cs" using l split_on_not_Nil by simp
  ultimately show ?thesis using split_on_free by fastforce
qed

lemma resolve_update_file:
  "k \<noteq> [] \<Longrightarrow> node_at fs k \<noteq> Some Dir \<Longrightarrow> resolve (AList.update k (File bs) fs) p = resolve fs p"
  by (simp add: resolve_def walk_update_file)

lemma wf_fs_update:
  "wf_fs fs \<Longrightarrow> \<forall>c\<in>set k. CHR ''/'' \<notin> set c \<Longrightarrow> wf_fs (AList.update k v fs)"
  by (auto simp add: wf_fs_def distinct_update dom_update)

lemma wf_fs_delete: "wf_fs fs \<Longrightarrow> wf_fs (AList.delete k fs)"
  using dom_delete_subset[of k fs] by (auto simp add: wf_fs_def distinct_delete)

lemma write_file_wf: "wf_fs fs \<Longrightarrow> write_file fs p c = Inr fs1 \<Longrightarrow> wf_fs fs1"
  using write_file_D[of fs p c fs1] resolve_components wf_fs_update by blast

lemma write_file_walk: "write_file fs p c = Inr fs1 \<Longrightarrow> walk fs1 cur cs = walk fs cur cs"
  using write_file_D[of fs p c fs1] by (auto simp add: walk_update_file)

lemma write_file_again:
  assumes "write_file fs p c = Inr fs1"
  shows "stat fs1 p = Some (File c) \<and> write_file fs1 p c = Inr fs1"
proof -
  from write_file_D[OF assms] obtain d l where r: "resolve fs p = Some (d, l)"
    and n: "\<not> names_dir l" and nd: "node_at fs (d @ [l]) \<noteq> Some Dir"
    and fs1: "fs1 = AList.update (d @ [l]) (File c) fs" by blast
  have r1: "resolve fs1 p = Some (d, l)" using r nd by (simp add: fs1 resolve_update_file)
  have n1: "node_at fs1 (d @ [l]) = Some (File c)" by (simp add: fs1 node_at_update)
  have "stat fs1 p = Some (File c)" using r1 n1 n by (simp add: stat_def names_dir_def)
  moreover have "write_file fs1 p c = Inr fs1"
    using r1 n1 n by (simp add: write_file_def) (simp add: fs1)
  ultimately show ?thesis by simp
qed

lemma remove_wf: "wf_fs fs \<Longrightarrow> remove fs p = Inr fs1 \<Longrightarrow> wf_fs fs1"
  using remove_D[of fs p fs1] wf_fs_delete by blast

lemma remove_walk: "remove fs p = Inr fs1 \<Longrightarrow> walk fs1 cur cs = walk fs cur cs"
  using remove_D[of fs p fs1] by (auto simp add: walk_delete_file)

lemma remove_pdfs_keeps:
  "remove_pdfs dir names fs = (r, fs1) \<Longrightarrow>
     (wf_fs fs \<longrightarrow> wf_fs fs1) \<and> (\<forall>cur cs. walk fs1 cur cs = walk fs cur cs)"
proof (induction names arbitrary: fs)
  case Nil
  then show ?case by simp
next
  case (Cons name rest)
  show ?case
  proof (cases "is_pdf_name name")
    case False
    with Cons show ?thesis by simp
  next
    case True
    show ?thesis
    proof (cases "remove fs (path_join dir name)")
      case (Inl e)
      with True Cons.prems show ?thesis by simp
    next
      case (Inr fs2)
      with True Cons.prems have "remove_pdfs dir rest fs2 = (r, fs1)" by simp
      from Cons.IH[OF this] remove_wf[OF _ Inr] remove_walk[OF Inr] show ?thesis by simp
    qed
  qed
qed

lemma load_loop_single:
  "load_loop env fs [p] [] =
     (if is_pdf_name p
      then (case stat fs p of
              Some (File bs) \<Rightarrow> (case PyPDFLoader_load env p bs of Inl e \<Rightarrow> [] | Inr pages \<Rightarrow> pages)
            | _ \<Rightarrow> [])
      else [])"
  by (auto simp add: path_exists_def split: option.splits node.splits sum.splits)

lemma load_documents_cases:
  "(\<exists>m. \<forall>a. load_documents env fs a [p] = Inl (Exception m)) \<or>
   (\<exists>bs pages chunks.
      stat fs p = Some (File bs) \<and> PyPDFLoader_load env p bs = Inr pages \<and> pages \<noteq> [] \<and>
      split_documents env pages = Inr chunks \<and> chunks \<noteq> [] \<and>
      (\<forall>a. load_documents env fs a [p] = Inr (a\<lparr>vector_store := vector_store a @ chunks\<rparr>)))"
proof (cases "load_loop env fs [p] [] = []")
  case True
  then show ?thesis by (simp add: load_documents_def del: load_loop.simps)
next
  case False
  then obtain bs pages where st: "stat fs p = Some (File bs)"
    and ld: "PyPDFLoader_load env p bs = Inr pages" and ne: "pages \<noteq> []"
    and ll: "load_loop env fs [p] [] = pages"
    unfolding load_loop_single by (auto split: if_splits option.splits node.splits sum.splits)
  show ?thesis
  proof (cases "split_documents env pages")
    case (Inl e)
    then show ?thesis using ll ne by (simp add: load_documents_def del: load_loop.simps)
  next
    case (Inr chunks)
    show ?thesis
    proof (cases "chunks = []")
      case True
      then show ?thesis using ll ne Inr by (simp add: load_documents_def del: load_loop.simps)
    next
      case False
      show ?thesis
      proof (cases "add_documents_fault env chunks")
        case (Some e)
        then show ?thesis using ll ne Inr False by (simp add: load_documents_def del: load_loop.simps)
      next
        case None
        have "\<forall>a. load_documents env fs a [p] = Inr (a\<lparr>vector_store := vector_store a @ chunks\<rparr>)"
          using ll ne Inr False None by (simp add: load_documents_def del: load_loop.simps)
        with st ld ne Inr False show ?thesis by blast
      qed
    qed
  qed
qed

lemma upload_try_Inr_D:
  assumes "upload_try env file s = (Inr r, s1)"
  shows "\<exists>a name fs1 a1. my_rag_agent s = Some a \<and> filename file = Some name \<and> is_pdf_name name \<and>
           \<not> too_large file \<and>
           write_file (disk s) (path_join (pdfs_dir s) name) (content file) = Inr fs1 \<and>
           load_documents env fs1 a [path_join (pdfs_dir s) name] = Inr a1 \<and>
           s1 = s\<lparr>disk := fs1, my_rag_agent := Some a1\<rparr> \<and>
           r = \<lparr>up_message = ''Successfully uploaded and processed '' @ name,
                up_filename = name, up_status = ''success''\<rparr>"
  using assms
  by (auto simp add: upload_try_def too_large_def Let_def split: option.splits if_splits sum.splits)

lemma except_keep_http_Inr: "(except_keep_http pre x = Inr r) = (x = Inr r)"
proof (cases x)
  case (Inl e)
  then show ?thesis by (cases e) simp_all
next
  case (Inr v)
  then show ?thesis by simp
qed

lemma upload_pdf_Inr: "(upload_pdf env file s = (Inr r, s1)) = (upload_try env file s = (Inr r, s1))"
  by (cases "upload_try env file s") (simp add: upload_pdf_def except_keep_http_Inr)

lemma is_pdf_name_simps:
  "is_pdf_name ''a.pdf''" "is_pdf_name ''/app/pdfs/a.pdf''" "is_pdf_name ''../x.pdf''"
  "is_pdf_name ''/app/pdfs/../x.pdf''"
  by (simp_all add: is_pdf_name_def endswith_def lower_def lower_char_def)

lemma example_upload_runs:
  "upload_pdf example_env example_upload example_server =
     (Inr \<lparr>up_message = ''Successfully uploaded and processed a.pdf'',
           up_filename = ''a.pdf'', up_status = ''success''\<rparr>,
      example_server
        \<lparr>disk := [([''app''], Dir), ([''app'', ''pdfs''], Dir), ([''app'', ''pdfs'', ''a.pdf''], File [1, 2])],
         my_rag_agent := Some (example_agent\<lparr>vector_store := [example_page]\<rparr>)\<rparr>)"
  by (simp add: upload_pdf_def upload_try_def example_upload_def example_server_def example_env_def
        example_agent_def example_page_def is_pdf_name_simps path_join_def startswith_def endswith_def
        write_file_def resolve_def node_at_def names_dir_def load_documents_def path_exists_def stat_def
        Let_def)

lemma load_documents_Inl: "load_documents env fs a [p] = Inl e \<Longrightarrow> \<exists>m. e = Exception m"
  using load_documents_cases[of env fs p] by auto

lemma write_plain_D:
  assumes "CHR ''/'' \<notin> set name" and "write_file fs (path_join dir name) c = Inr fs1"
  shows "\<exists>d. walk fs [] (split_on CHR ''/'' dir) = Some d \<and>
             walk fs1 [] (split_on CHR ''/'' dir) = Some d \<and>
             fs1 = AList.update (d @ [name]) (File c) fs"
proof -
  from write_file_D[OF assms(2)] obtain d l where
    r: "resolve fs (path_join dir name) = Some (d, l)"
    and fs1: "fs1 = AList.update (d @ [l]) (File c) fs" by blast
  from r have "walk fs [] (split_on CHR ''/'' dir) = Some d \<and> l = name"
    unfolding resolve_join_plain[OF assms(1)] by (auto split: option.splits)
  then show ?thesis using fs1 write_file_walk[OF assms(2)] by simp
qed

lemma get_status_listed:
  "listdir (disk s) (pdfs_dir s) = Inr names \<Longrightarrow>
   get_status s = Inr \<lparr>status = ''running'', rag_agent_ready = (my_rag_agent s \<noteq> None),
                       pdfs_directory = pdfs_dir s,
                       documents_loaded = length (filter is_pdf_name names)\<rparr>"
  by (simp add: get_status_def)

lemma except_all_Inr: "(except_all pre x = Inr r) = (x = Inr r)"
  by (cases x) simp_all

lemma children_free:
  "wf_fs fs \<Longrightarrow> n \<in> set (children fs d) \<Longrightarrow> CHR ''/'' \<notin> set n"
  by (fastforce simp add: set_children wf_fs_def)

lemma remove_plain_D:
  assumes "CHR ''/'' \<notin> set name" and "remove fs (path_join dir name) = Inr fs1"
    and "walk fs [] (split_on CHR ''/'' dir) = Some d"
  shows "fs1 = AList.delete (d @ [name]) fs"
proof -
  from remove_D[OF assms(2)] obtain d' l where
    r: "resolve fs (path_join dir name) = Some (d', l)"
    and fs1: "fs1 = AList.delete (d' @ [l]) fs" by blast
  from r assms(3) have "d' = d \<and> l = name"
    unfolding resolve_join_plain[OF assms(1)] by simp
  with fs1 show ?thesis by simp
qed

lemma remove_pdfs_clears:
  assumes "walk fs [] (split_on CHR ''/'' dir) = Some d"
    and "\<forall>n\<in>set names. CHR ''/'' \<notin> set n"
    and "remove_pdfs dir names fs = (None, fs1)"
  shows "children fs1 d = filter (\<lambda>m. \<not> (m \<in> set names \<and> is_pdf_name m)) (children fs d)"
  using assms
proof (induction names arbitrary: fs)
  case Nil
  then show ?case by simp
next
  case (Cons name rest)
  show ?case
  proof (cases "is_pdf_name name")
    case False
    with Cons.prems have rp: "remove_pdfs dir rest fs = (None, fs1)" by simp
    from Cons.prems have fr: "\<forall>n\<in>set rest. CHR ''/'' \<notin> set n" by simp
    have "children fs1 d = filter (\<lambda>m. \<not> (m \<in> set rest \<and> is_pdf_name m)) (children fs d)"
      using Cons.IH[OF Cons.prems(1) fr rp] .
    also have "\<dots> = filter (\<lambda>m. \<not> (m \<in> set (name # rest) \<and> is_pdf_name m)) (children fs d)"
      using False by (intro filter_cong) auto
    finally show ?thesis .
  next
    case True
    show ?thesis
    proof (cases "remove fs (path_join dir name)")
      case (Inl e)
      with True Cons.prems show ?thesis by simp
    next
      case (Inr fs2)
      with True Cons.prems have rp: "remove_pdfs dir rest fs2 = (None, fs1)" by simp
      from Cons.prems have fr: "\<forall>n\<in>set rest. CHR ''/'' \<notin> set n" and fn: "CHR ''/'' \<notin> set name"
        by simp_all
      have fs2: "fs2 = AList.delete (d @ [name]) fs"
        using remove_plain_D[OF fn Inr Cons.prems(1)] .
      have w2: "walk fs2 [] (split_on CHR ''/'' dir) = Some d"
        using remove_walk[OF Inr] Cons.prems(1) by simp
      have "children fs1 d = filter (\<lambda>m. \<not> (m \<in> set rest \<and> is_pdf_name m)) (children fs2 d)"
        using Cons.IH[OF w2 fr rp] .
      also have "\<dots> = filter (\<lambda>m. \<not> (m \<in> set rest \<and> is_pdf_name m))
                         (filter (\<lambda>m. m \<noteq> name) (children fs d))"
        by (simp add: fs2 children_delete)
      also have "\<dots> = filter (\<lambda>m. \<not> (m \<in> set (name # rest) \<and> is_pdf_name m)) (children fs d)"
        using True unfolding filter_filter by (intro filter_cong) auto
      finally show ?thesis .
    qed
  qed
qed

lemma listdir_D: "listdir fs p = Inr names \<Longrightarrow>
   \<exists>d. walk fs [] (split_on CHR ''/'' p) = Some d \<and> names = children fs d"
  by (auto simp add: listdir_def split: option.splits)

lemma reset_documents_never_succeeds:
  "\<exists>d. fst (reset_documents env s) = Inl (HTTPException 500 d) \<and>
        my_rag_agent (snd (reset_documents env s)) = my_rag_agent s"
  by (auto simp add: reset_documents_def reset_try_def MyRAGAgent_def
           split: option.splits sum.splits prod.splits)

lemma MyRAGAgent_init_Inr:
  "MyRAGAgent_init env key = Inr a \<Longrightarrow> vector_store a = [] \<and> chat_history a = []"
  by (auto simp add: MyRAGAgent_init_def split: if_splits option.splits)

section \<open>What every request keeps\<close>

lemma upload_pdf_effect:
  "\<exists>x s1. upload_pdf env file s = (x, s1) \<and>
     (s1 = s \<or>
      (\<exists>p fs1. write_file (disk s) p (content file) = Inr fs1 \<and> my_rag_agent s \<noteq> None \<and>
         (s1 = s\<lparr>disk := fs1\<rparr> \<or> (\<exists>a1. s1 = s\<lparr>disk := fs1, my_rag_agent := Some a1\<rparr>))))"
  by (auto simp add: upload_pdf_def upload_try_def Let_def split: option.splits sum.splits)

lemma chat_effect:
  "fst (snd (chat env message s)) = s \<or>
   (my_rag_agent s \<noteq> None \<and> (\<exists>a1. fst (snd (chat env message s)) = s\<lparr>my_rag_agent := Some a1\<rparr>))"
  by (auto simp add: chat_def chat_try_def split: option.splits sum.splits prod.splits)

lemma reset_effect:
  "\<exists>x s1. reset_documents env s = (x, s1) \<and>
     (s1 = s \<or>
      (\<exists>names r fs1. remove_pdfs (pdfs_dir s) names (disk s) = (r, fs1) \<and> my_rag_agent s \<noteq> None \<and>
         (s1 = s\<lparr>disk := fs1\<rparr> \<or> (\<exists>a1. s1 = s\<lparr>disk := fs1, my_rag_agent := Some a1\<rparr>))))"
  by (auto simp add: reset_documents_def reset_try_def split: option.splits sum.splits prod.splits)

lemma handle_keeps:
  assumes "wf_fs (disk s)"
  shows "wf_fs (disk (handle env req s)) \<and> pdfs_dir (handle env req s) = pdfs_dir s \<and>
         (\<forall>cur cs. walk (disk (handle env req s)) cur cs = walk (disk s) cur cs) \<and>
         (my_rag_agent (handle env req s) = None) = (my_rag_agent s = None)"
proof (cases req)
  case (UploadPdf upl)
  from upload_pdf_effect[of env upl s] obtain x s1 where u: "upload_pdf env upl s = (x, s1)"
    and eff: "s1 = s \<or>
      (\<exists>p fs1. write_file (disk s) p (content upl) = Inr fs1 \<and> my_rag_agent s \<noteq> None \<and>
         (s1 = s\<lparr>disk := fs1\<rparr> \<or> (\<exists>a1. s1 = s\<lparr>disk := fs1, my_rag_agent := Some a1\<rparr>)))" by blast
  have h: "handle env req s = s1" by (simp add: UploadPdf u)
  from eff show ?thesis
  proof
    assume "s1 = s" with h assms show ?thesis by simp
  next
    assume "\<exists>p fs1. write_file (disk s) p (content upl) = Inr fs1 \<and> my_rag_agent s \<noteq> None \<and>
         (s1 = s\<lparr>disk := fs1\<rparr> \<or> (\<exists>a1. s1 = s\<lparr>disk := fs1, my_rag_agent := Some a1\<rparr>))"
    then obtain p fs1 where w: "write_file (disk s) p (content upl) = Inr fs1"
      and a: "my_rag_agent s \<noteq> None"
      and s1: "s1 = s\<lparr>disk := fs1\<rparr> \<or> (\<exists>a1. s1 = s\<lparr>disk := fs1, my_rag_agent := Some a1\<rparr>)" by blast
    from write_file_wf[OF assms w] write_file_walk[OF w] a s1 h show ?thesis by auto
  qed
next
  case (Chat message)
  with chat_effect[of env message s] assms show ?thesis by auto
next
  case GetStatus
  with assms show ?thesis by simp
next
  case Reset
  from reset_effect[of env s] obtain x s1 where u: "reset_documents env s = (x, s1)"
    and eff: "s1 = s \<or>
      (\<exists>names r fs1. remove_pdfs (pdfs_dir s) names (disk s) = (r, fs1) \<and> my_rag_agent s \<noteq> None \<and>
         (s1 = s\<lparr>disk := fs1\<rparr> \<or> (\<exists>a1. s1 = s\<lparr>disk := fs1, my_rag_agent := Some a1\<rparr>)))" by blast
  have h: "handle env req s = s1" by (simp add: Reset u)
  from eff show ?thesis
  proof
    assume "s1 = s" with h assms show ?thesis by simp
  next
    assume "\<exists>names r fs1. remove_pdfs (pdfs_dir s) names (disk s) = (r, fs1) \<and> my_rag_agent s \<noteq> None \<and>
         (s1 = s\<lparr>disk := fs1\<rparr> \<or> (\<exists>a1. s1 = s\<lparr>disk := fs1, my_rag_agent := Some a1\<rparr>))"
    then obtain names r fs1 where w: "remove_pdfs (pdfs_dir s) names (disk s) = (r, fs1)"
      and a: "my_rag_agent s \<noteq> None"
      and s1: "s1 = s\<lparr>disk := fs1\<rparr> \<or> (\<exists>a1. s1 = s\<lparr>disk := fs1, my_rag_agent := Some a1\<rparr>)" by blast
    from remove_pdfs_keeps[OF w] assms a s1 h show ?thesis by auto
  qed
qed

lemma serve_keeps:
  "wf_fs (disk s) \<Longrightarrow>
     wf_fs (disk (serve reqs s)) \<and> pdfs_dir (serve reqs s) = pdfs_dir s \<and>
     (\<forall>cur cs. walk (disk (serve reqs s)) cur cs = walk (disk s) cur cs) \<and>
     (my_rag_agent (serve reqs s) = None) = (my_rag_agent s = None)"
proof (induction reqs arbitrary: s)
  case Nil
  then show ?case by simp
next
  case (Cons er reqs)
  obtain env req where er: "er = (env, req)" by (cases er)
  from handle_keeps[OF Cons.prems, of env req] have
    1: "wf_fs (disk (handle env req s))" and 2: "pdfs_dir (handle env req s) = pdfs_dir s"
    and 3: "\<forall>cur cs. walk (disk (handle env req s)) cur cs = walk (disk s) cur cs"
    and 4: "(my_rag_agent (handle env req s) = None) = (my_rag_agent s = None)" by simp_all
  from Cons.IH[OF 1] 2 3 4 show ?case by (simp add: er)
qed

lemma count_children:
  assumes "wf_fs fs"
  shows "length (filter P (children fs d)) = card {n. P n \<and> d @ [n] \<in> fst ` set fs}"
proof -
  have "distinct (children fs d)" using assms by (simp add: wf_fs_def distinct_children)
  then have "length (filter P (children fs d)) = card ({n. P n} \<inter> set (children fs d))"
    by (rule distinct_length_filter)
  also have "{n. P n} \<inter> set (children fs d) = {n. P n \<and> d @ [n] \<in> fst ` set fs}"
    by (auto simp add: set_children)
  finally show ?thesis .
qed

section \<open>The chat history\<close>

text \<open>
  Claim C2, as amended. For every call to \<^verbatim>\<open>ask\<close> that returns an answer, the turn appended
  to the chat history is the pair of the question with its leading and trailing whitespace
  stripped and of the answer, as a human message followed by an AI message; after the
  call the history is the last 20 entries of the old history followed by the turn, so it
  has at most 20 entries and the older ones are dropped.
\<close>

theorem ask_appends_turn:
  assumes "fst (ask env a q) = Inr ans"
  shows "chat_history (fst (snd (ask env a q))) =
           last_n 20 (chat_history a @ [HumanMessage (strip q), AIMessage ans]) \<and>
         length (chat_history (fst (snd (ask env a q)))) \<le> 20"
proof -
  from ask_Inr_D[OF assms] have q: "strip q \<noteq> []" and f: "invoke_fault env = None" by simp_all
  note r = ask_runs[OF q f, of a]
  from assms r have ans: "ans = st_answer (fst (generate env a (fst (retrieve env a (ask_state a q)))))"
    by simp
  have "st_question (fst (retrieve env a (ask_state a q))) = strip q"
    by (simp add: retrieve_question ask_state_def)
  then have m: "st_messages (fst (generate env a (fst (retrieve env a (ask_state a q))))) =
                 [HumanMessage (strip q), AIMessage ans]"
    using generate_messages[of env a "fst (retrieve env a (ask_state a q))"] ans by simp
  show ?thesis using r m by (simp add: length_last_n)
qed

theorem ask_appends_turn_witness:
  "fst (ask example_env example_agent '' hi '') = Inr ''fine'' \<and>
   chat_history (fst (snd (ask example_env example_agent '' hi ''))) =
     [HumanMessage ''hi'', AIMessage ''fine'']"
proof -
  have h: "fst (ask example_env example_agent '' hi '') = Inr ''fine''"
    by (simp add: ask_def invoke_def graph_def retrieve_def generate_def gen_text_of_def
          ask_state_def example_env_def strip_def is_space_def Let_def)
  from ask_appends_turn[OF h] h show ?thesis
    by (simp add: example_agent_def last_n_def strip_def is_space_def)
qed

text \<open>
  Claim C2 as stated fails: asked \<^verbatim>\<open>" hi "\<close>, the agent answers, and the turn it appends
  holds \<^verbatim>\<open>"hi"\<close>, not the question of the call.
\<close>

theorem ask_stores_stripped_question:
  "fst (ask example_env example_agent '' hi '') = Inr ''fine'' \<and>
   chat_history (fst (snd (ask example_env example_agent '' hi ''))) \<noteq>
     chat_history example_agent @ [HumanMessage '' hi '', AIMessage ''fine'']"
  by (simp add: ask_def invoke_def graph_def retrieve_def generate_def gen_text_of_def
        ask_state_def example_env_def example_agent_def strip_def is_space_def Let_def)

section \<open>Rejected requests\<close>

text \<open>
  Claim C4, as amended. For every \<^verbatim>\<open>POST /upload-pdf\<close> on an initialized agent: if the
  uploaded file name does not end in \<^verbatim>\<open>.pdf\<close> (case-insensitive) the request is rejected
  with HTTP 400, and if the file name does end in \<^verbatim>\<open>.pdf\<close> and the uploaded content
  exceeds 50 * 1024 * 1024 bytes it is rejected with HTTP 413. In both cases the server's
  state is what it was: no file is written and the vector index is unchanged.
\<close>

theorem upload_rejections:
  assumes "my_rag_agent s = Some a" and "filename file = Some name"
  shows "(\<not> is_pdf_name name \<longrightarrow>
            status_code (fst (upload_pdf env file s)) = 400 \<and> snd (upload_pdf env file s) = s) \<and>
         (is_pdf_name name \<and> too_large file \<longrightarrow>
            status_code (fst (upload_pdf env file s)) = 413 \<and> snd (upload_pdf env file s) = s)"
  using assms
  by (auto simp add: upload_pdf_def upload_try_def too_large_def is_pdf_name_Nil)

theorem upload_rejections_witness:
  "status_code (fst (upload_pdf example_env \<lparr>filename = Some ''notes.txt'', content = []\<rparr> example_server)) = 400 \<and>
   snd (upload_pdf example_env \<lparr>filename = Some ''notes.txt'', content = []\<rparr> example_server) = example_server \<and>
   status_code (fst (upload_pdf example_env \<lparr>filename = Some ''big.PDF'', content = replicate 52428801 0\<rparr> example_server)) = 413 \<and>
   snd (upload_pdf example_env \<lparr>filename = Some ''big.PDF'', content = replicate 52428801 0\<rparr> example_server) = example_server"
proof -
  have a: "my_rag_agent example_server = Some example_agent" by (simp add: example_server_def)
  have n1: "filename \<lparr>filename = Some ''notes.txt'', content = []\<rparr> = Some ''notes.txt''" by simp
  have n2: "filename \<lparr>filename = Some ''big.PDF'', content = replicate 52428801 0\<rparr> = Some ''big.PDF''"
    by simp
  have p1: "\<not> is_pdf_name ''notes.txt''" and p2: "is_pdf_name ''big.PDF''"
    by (simp_all add: is_pdf_name_def endswith_def lower_def lower_char_def)
  have big: "too_large \<lparr>filename = Some ''big.PDF'', content = replicate 52428801 0\<rparr>"
    by (simp add: too_large_def)
  from upload_rejections[OF a n1, of example_env] upload_rejections[OF a n2, of example_env] p1 p2 big
  show ?thesis by simp
qed

text \<open>
  Claim C4 as stated fails: an upload of 50MB and one byte named \<^verbatim>\<open>notes.txt\<close> is over
  the size limit and is answered 400, not 413, since the name is tested first.
\<close>

theorem upload_large_non_pdf:
  "too_large \<lparr>filename = Some ''notes.txt'', content = replicate 52428801 0\<rparr> \<and>
   status_code (fst (upload_pdf example_env \<lparr>filename = Some ''notes.txt'', content = replicate 52428801 0\<rparr> example_server)) = 400"
  by (simp add: too_large_def upload_pdf_def upload_try_def example_server_def
        is_pdf_name_def endswith_def lower_def lower_char_def)

text \<open>
  Claim C5, as amended. For every \<^verbatim>\<open>POST /chat\<close> on an initialized agent whose message is
  empty or consists only of whitespace, the answer is HTTP 400 with the detail
  \<^verbatim>\<open>Message cannot be empty\<close>; the server's state is what it was, so the chat history and
  the vector index are unchanged, and no step of the graph runs.
\<close>

theorem chat_rejects_blank:
  assumes "my_rag_agent s = Some a" and "\<forall>c\<in>set message. is_space c"
  shows "chat env message s = (Inl (HTTPException 400 ''Message cannot be empty''), s, [])"
  using assms by (simp add: chat_def chat_try_def strip_empty_iff)

theorem chat_rejects_blank_witness:
  "chat example_env ''  '' example_server =
     (Inl (HTTPException 400 ''Message cannot be empty''), example_server, [])"
  using chat_rejects_blank [of example_server example_agent "''  ''" example_env]
  by (simp add: example_server_def is_space_def)

text \<open>
  Claim C5 as stated fails: when the agent could not be built, the empty message is
  answered 503, since the agent is tested first.
\<close>

theorem chat_blank_uninitialized:
  "status_code (fst (chat example_env [] (example_server\<lparr>my_rag_agent := None\<rparr>))) = 503"
  by (simp add: chat_def chat_try_def)

section \<open>Failures while answering\<close>

text \<open>
  Claim C3, as amended. For every \<^verbatim>\<open>POST /chat\<close> with a message that is not blank, on an
  initialized agent: when the call of the generation model raises, the \<^verbatim>\<open>generate\<close> step
  catches the exception, the fixed apology becomes the answer, and the response is a success
  (HTTP 200, status \<^verbatim>\<open>success\<close>) carrying the apology and not the failure's message. Only
  an exception raised by \<^verbatim>\<open>ask\<close>, which is a failure of the graph runtime, is mapped to
  HTTP 500, with a detail that ends in the failure's message. The status is 200 exactly
  when the runtime does not fail, and 500 otherwise.
\<close>

theorem chat_generation_failure:
  assumes "my_rag_agent s = Some a" and "strip message \<noteq> []"
  shows "(\<forall>e. invoke_fault env = None \<and>
              generate_content env
                (prompt_text (st_context (fst (retrieve env a (ask_state a message))))
                   (chat_history a) (strip message)) = Inl e \<longrightarrow>
              fst (chat env message s) = Inr \<lparr>response = error_message, chat_status = ''success''\<rparr> \<and>
              status_code (fst (chat env message s)) = 200) \<and>
         (\<forall>e. invoke_fault env = Some e \<longrightarrow>
              fst (chat env message s) =
                Inl (HTTPException 500
                       (''Failed to generate response: '' @ ''Failed to generate response: '' @ e))) \<and>
         (status_code (fst (chat env message s)) = (if invoke_fault env = None then 200 else 500))"
proof -
  let ?st1 = "fst (retrieve env a (ask_state a message))"
  have q: "st_question ?st1 = strip message" and m: "st_messages ?st1 = chat_history a"
    by (simp_all add: retrieve_fst ask_state_def)
  have A: "\<And>e. invoke_fault env = None \<Longrightarrow>
              generate_content env (prompt_text (st_context ?st1) (chat_history a) (strip message)) = Inl e \<Longrightarrow>
              fst (chat env message s) = Inr \<lparr>response = error_message, chat_status = ''success''\<rparr>"
  proof -
    fix e assume f: "invoke_fault env = None"
      and g: "generate_content env (prompt_text (st_context ?st1) (chat_history a) (strip message)) = Inl e"
    from g q m have "st_answer (fst (generate env a ?st1)) = error_message"
      using generate_raises[of env ?st1 e a] by simp
    with chat_runs[OF assms f] show "fst (chat env message s) = Inr \<lparr>response = error_message, chat_status = ''success''\<rparr>"
      by simp
  qed
  have B: "\<And>e. invoke_fault env = Some e \<Longrightarrow>
              fst (chat env message s) =
                Inl (HTTPException 500 (''Failed to generate response: '' @ ''Failed to generate response: '' @ e))"
    using chat_fault[OF assms] by blast
  have C: "status_code (fst (chat env message s)) = (if invoke_fault env = None then 200 else 500)"
  proof (cases "invoke_fault env")
    case None
    with chat_runs[OF assms None] show ?thesis by simp
  next
    case (Some e)
    with B[OF Some] show ?thesis by simp
  qed
  from A B C show ?thesis by simp
qed

theorem chat_generation_failure_witness:
  "fst (chat env_generation_down ''hello'' example_server) =
     Inr \<lparr>response = error_message, chat_status = ''success''\<rparr> \<and>
   fst (chat env_runtime_down ''hello'' example_server) =
     Inl (HTTPException 500 ''Failed to generate response: Failed to generate response: checkpoint failed'')"
  using chat_generation_failure [of example_server example_agent "''hello''" env_generation_down]
        chat_generation_failure [of example_server example_agent "''hello''" env_runtime_down]
  by (simp add: example_server_def example_env_def env_generation_down_def env_runtime_down_def
        strip_def is_space_def)

text \<open>
  Claim C3 as stated fails: with the generation model raising on the prompt of the
  request, \<^verbatim>\<open>POST /chat\<close> with the message \<^verbatim>\<open>hello\<close> is answered 200.
\<close>

theorem chat_generation_failure_is_success:
  "strip ''hello'' \<noteq> [] \<and>
   generate_content env_generation_down
     (prompt_text [] [] ''hello'') = Inl ''429 quota exceeded'' \<and>
   status_code (fst (chat env_generation_down ''hello'' example_server)) = 200"
  by (simp add: chat_def chat_try_def ask_def invoke_def graph_def retrieve_def generate_def
        ask_state_def example_server_def example_agent_def example_env_def env_generation_down_def
        strip_def is_space_def Let_def)

text \<open>
  Claim C10. A failure of the retrieval never makes \<^verbatim>\<open>ask\<close> raise: \<^verbatim>\<open>ask\<close> raises exactly
  when the question is blank or the graph runtime itself fails, whatever the similarity
  search does. When the search of the \<^verbatim>\<open>retrieve\<close> step raises (and the runtime does not
  fail), \<^verbatim>\<open>retrieve\<close> leaves the context empty, \<^verbatim>\<open>generate\<close> still runs, on a prompt built
  from no document, and \<^verbatim>\<open>ask\<close> returns the answer of that \<^verbatim>\<open>generate\<close>.
\<close>

theorem retrieval_failure_absorbed:
  "isl (fst (ask env a q)) = (strip q = [] \<or> invoke_fault env \<noteq> None) \<and>
   (strip q \<noteq> [] \<and> invoke_fault env = None \<and>
    similarity_search env (vector_store a) (strip q) 4 = Inl e \<longrightarrow>
      fst (retrieve env a (ask_state a q)) = ask_state a q \<and>
      st_context (ask_state a q) = [] \<and>
      fst (ask env a q) = Inr (st_answer (fst (generate env a (ask_state a q)))) \<and>
      snd (snd (ask env a q)) =
        [Node ''retrieve'', SimilaritySearch (vector_store a) (strip q) 4,
         Node ''generate'', GenerateContent (prompt_text [] (chat_history a) (strip q))])"
proof -
  have A: "isl (fst (ask env a q)) = (strip q = [] \<or> invoke_fault env \<noteq> None)"
  proof (cases "strip q = []")
    case True
    then show ?thesis by (simp add: ask_blank)
  next
    case False
    show ?thesis
    proof (cases "invoke_fault env")
      case None
      with False show ?thesis by (simp add: ask_runs)
    next
      case (Some x)
      with False show ?thesis by (simp add: ask_fault)
    qed
  qed
  have B: "strip q \<noteq> [] \<Longrightarrow> invoke_fault env = None \<Longrightarrow>
           similarity_search env (vector_store a) (strip q) 4 = Inl e \<Longrightarrow>
           fst (retrieve env a (ask_state a q)) = ask_state a q \<and>
           st_context (ask_state a q) = [] \<and>
           fst (ask env a q) = Inr (st_answer (fst (generate env a (ask_state a q)))) \<and>
           snd (snd (ask env a q)) =
             [Node ''retrieve'', SimilaritySearch (vector_store a) (strip q) 4,
              Node ''generate'', GenerateContent (prompt_text [] (chat_history a) (strip q))]"
  proof -
    assume q: "strip q \<noteq> []" and f: "invoke_fault env = None"
      and r: "similarity_search env (vector_store a) (strip q) 4 = Inl e"
    have r1: "fst (retrieve env a (ask_state a q)) = ask_state a q"
      using q r by (simp add: retrieve_fst ask_state_def)
    show ?thesis
      using q r r1 by (simp add: ask_runs[OF q f] retrieve_snd generate_snd) (simp add: ask_state_def)
  qed
  from A B show ?thesis by blast
qed

theorem retrieval_failure_absorbed_witness:
  "fst (ask env_search_down example_agent ''hello'') = Inr ''fine'' \<and>
   snd (snd (ask env_search_down example_agent ''hello'')) =
     [Node ''retrieve'', SimilaritySearch [] ''hello'' 4,
      Node ''generate'', GenerateContent (prompt_text [] [] ''hello'')]"
  using retrieval_failure_absorbed [of env_search_down example_agent "''hello''" "''embedding failed''"]
  by (simp add: env_search_down_def example_env_def example_agent_def strip_def is_space_def
        generate_def gen_text_of_def ask_state_def Let_def)

section \<open>The pipeline\<close>

text \<open>
  Claim C7, as amended. Every call to \<^verbatim>\<open>ask\<close> with a question that is not blank (not empty
  once its surrounding whitespace is stripped), in which the graph runtime itself does not
  fail, runs exactly two steps in order: \<^verbatim>\<open>retrieve\<close>, which makes one similarity search
  of the vector index for the stripped question with k = 4, and then \<^verbatim>\<open>generate\<close>, which
  makes one call of the generation model on the prompt composed from the retrieved
  context (none when the search failed), the chat history and the stripped question.
  Nothing else runs.
\<close>

theorem ask_two_step_pipeline:
  assumes "strip q \<noteq> []" and "invoke_fault env = None"
  shows "snd (snd (ask env a q)) =
           [Node ''retrieve'', SimilaritySearch (vector_store a) (strip q) 4,
            Node ''generate'',
            GenerateContent
              (prompt_text
                 (case similarity_search env (vector_store a) (strip q) 4 of
                    Inr docs \<Rightarrow> docs | Inl e \<Rightarrow> [])
                 (chat_history a) (strip q))]"
  using assms
  by (simp add: ask_runs retrieve_snd retrieve_fst generate_snd ask_state_def)

theorem ask_two_step_pipeline_witness:
  "snd (snd (ask example_env example_agent '' hi '')) =
     [Node ''retrieve'', SimilaritySearch [] ''hi'' 4,
      Node ''generate'', GenerateContent (prompt_text [] [] ''hi'')]"
  using ask_two_step_pipeline [of "'' hi ''" example_env example_agent]
  by (simp add: example_env_def example_agent_def strip_def is_space_def)

text \<open>
  Claim C7 as stated fails: the question of two spaces is not empty, and \<^verbatim>\<open>ask\<close> raises
  on it without running any step.
\<close>

theorem ask_whitespace_question:
  "''  '' \<noteq> [] \<and>
   ask example_env example_agent ''  '' =
     (Inl (Exception ''Question cannot be empty''), example_agent, [])"
  by (simp add: ask_def strip_def is_space_def)

section \<open>Uploads\<close>

text \<open>
  Claim C8. A successful \<^verbatim>\<open>POST /upload-pdf\<close> appends the chunks of the new file to the
  vector index: the file is stored with the uploaded content, the loader's pages of that
  content are split into chunks, there is at least one, and the index afterwards is the
  old index followed by these chunks, so every earlier chunk is still there; the chat
  history is unchanged. Nothing is deduplicated: uploading the same file again succeeds
  and appends the same chunks a second time.
\<close>

theorem upload_appends_chunks:
  assumes "my_rag_agent s = Some a" and "upload_pdf env file s = (Inr r, s1)"
  shows "\<exists>name pages chunks a1.
           filename file = Some name \<and>
           stat (disk s1) (path_join (pdfs_dir s) name) = Some (File (content file)) \<and>
           PyPDFLoader_load env (path_join (pdfs_dir s) name) (content file) = Inr pages \<and>
           split_documents env pages = Inr chunks \<and> chunks \<noteq> [] \<and>
           my_rag_agent s1 = Some a1 \<and>
           vector_store a1 = vector_store a @ chunks \<and>
           chat_history a1 = chat_history a \<and>
           (\<exists>s2 a2. upload_pdf env file s1 = (Inr r, s2) \<and> my_rag_agent s2 = Some a2 \<and>
                     vector_store a2 = vector_store a @ chunks @ chunks \<and>
                     chat_history a2 = chat_history a)"
proof -
  from assms(2) have "upload_try env file s = (Inr r, s1)" by (simp add: upload_pdf_Inr)
  from upload_try_Inr_D[OF this] assms(1) obtain name fs1 a1 where
    fn: "filename file = Some name" and pdf: "is_pdf_name name" and sz: "\<not> too_large file"
    and wr: "write_file (disk s) (path_join (pdfs_dir s) name) (content file) = Inr fs1"
    and ld: "load_documents env fs1 a [path_join (pdfs_dir s) name] = Inr a1"
    and s1: "s1 = s\<lparr>disk := fs1, my_rag_agent := Some a1\<rparr>"
    and r: "r = \<lparr>up_message = ''Successfully uploaded and processed '' @ name,
                  up_filename = name, up_status = ''success''\<rparr>"
    by auto
  let ?p = "path_join (pdfs_dir s) name"
  from write_file_again[OF wr] have st: "stat fs1 ?p = Some (File (content file))"
    and wr1: "write_file fs1 ?p (content file) = Inr fs1" by simp_all
  from load_documents_cases[of env fs1 ?p] ld obtain bs pages chunks where
    st': "stat fs1 ?p = Some (File bs)" and pg: "PyPDFLoader_load env ?p bs = Inr pages"
    and sp: "split_documents env pages = Inr chunks" and ne: "chunks \<noteq> []"
    and all: "\<forall>a. load_documents env fs1 a [?p] = Inr (a\<lparr>vector_store := vector_store a @ chunks\<rparr>)"
    by auto
  from st st' have bs: "bs = content file" by simp
  from all ld have a1: "a1 = a\<lparr>vector_store := vector_store a @ chunks\<rparr>" by simp
  let ?a2 = "a1\<lparr>vector_store := vector_store a1 @ chunks\<rparr>"
  let ?s2 = "s1\<lparr>disk := fs1, my_rag_agent := Some ?a2\<rparr>"
  have ld2: "load_documents env fs1 a1 [?p] = Inr ?a2" using all by blast
  have nn: "name \<noteq> []" using pdf is_pdf_name_Nil by auto
  have "upload_try env file s1 = (Inr r, ?s2)"
    using fn pdf sz wr1 ld2 nn by (simp add: upload_try_def s1 r too_large_def Let_def)
  then have up2: "upload_pdf env file s1 = (Inr r, ?s2)" by (simp add: upload_pdf_Inr)
  have "vector_store ?a2 = vector_store a @ chunks @ chunks \<and> chat_history ?a2 = chat_history a"
    by (simp add: a1)
  with up2 have second: "\<exists>s2 a2. upload_pdf env file s1 = (Inr r, s2) \<and> my_rag_agent s2 = Some a2 \<and>
                     vector_store a2 = vector_store a @ chunks @ chunks \<and>
                     chat_history a2 = chat_history a"
    by (intro exI[of _ ?s2] exI[of _ ?a2]) simp
  have "my_rag_agent s1 = Some a1 \<and> vector_store a1 = vector_store a @ chunks \<and>
        chat_history a1 = chat_history a \<and> stat (disk s1) ?p = Some (File (content file))"
    using st by (simp add: s1 a1)
  with fn pg sp ne second bs show ?thesis by blast
qed

theorem upload_appends_chunks_witness:
  "\<exists>s1 s2 a2 r.
     upload_pdf example_env example_upload example_server = (Inr r, s1) \<and>
     my_rag_agent s1 = Some (example_agent\<lparr>vector_store := [example_page]\<rparr>) \<and>
     upload_pdf example_env example_upload s1 = (Inr r, s2) \<and>
     my_rag_agent s2 = Some a2 \<and> vector_store a2 = [example_page, example_page]"
proof -
  let ?r = "\<lparr>up_message = ''Successfully uploaded and processed a.pdf'',
             up_filename = ''a.pdf'', up_status = ''success''\<rparr>"
  let ?s1 = "example_server
        \<lparr>disk := [([''app''], Dir), ([''app'', ''pdfs''], Dir), ([''app'', ''pdfs'', ''a.pdf''], File [1, 2])],
         my_rag_agent := Some (example_agent\<lparr>vector_store := [example_page]\<rparr>)\<rparr>"
  have a: "my_rag_agent example_server = Some example_agent" by (simp add: example_server_def)
  from upload_appends_chunks[OF a example_upload_runs]
  obtain chunks a1 s2 a2 where
    "my_rag_agent ?s1 = Some a1" "vector_store a1 = vector_store example_agent @ chunks"
    "upload_pdf example_env example_upload ?s1 = (Inr ?r, s2)" "my_rag_agent s2 = Some a2"
    "vector_store a2 = vector_store example_agent @ chunks @ chunks"
    by blast
  then have "upload_pdf example_env example_upload ?s1 = (Inr ?r, s2) \<and> my_rag_agent s2 = Some a2 \<and>
             vector_store a2 = [example_page, example_page]"
    by (auto simp add: example_agent_def)
  with example_upload_runs show ?thesis by (intro exI[of _ ?s1] exI[of _ s2] exI[of _ a2] exI[of _ ?r]) simp
qed

text \<open>
  Claim C9, as amended. The upload is not atomic when indexing fails: for a file name that
  holds no path separator, if \<^verbatim>\<open>load_documents\<close> raises after the file has been written
  (for example when no content can be extracted from the PDF), \<^verbatim>\<open>POST /upload-pdf\<close> answers
  HTTP 500, the file stays in the PDFs directory with the uploaded content, and a following
  \<^verbatim>\<open>GET /status\<close> counts it in \<^verbatim>\<open>documents_loaded\<close>, while the agent, and so its vector
  index, is what it was.
\<close>

theorem upload_not_atomic:
  assumes "my_rag_agent s = Some a" and "filename file = Some name" and "is_pdf_name name"
    and "\<not> too_large file" and "CHR ''/'' \<notin> set name"
    and "write_file (disk s) (path_join (pdfs_dir s) name) (content file) = Inr fs1"
    and "load_documents env fs1 a [path_join (pdfs_dir s) name] = Inl e"
  shows "\<exists>m names r.
           e = Exception m \<and>
           upload_pdf env file s =
             (Inl (HTTPException 500 (''Internal server error: '' @ m)), s\<lparr>disk := fs1\<rparr>) \<and>
           my_rag_agent (s\<lparr>disk := fs1\<rparr>) = Some a \<and>
           stat fs1 (path_join (pdfs_dir s) name) = Some (File (content file)) \<and>
           listdir fs1 (pdfs_dir s) = Inr names \<and> name \<in> set names \<and>
           get_status (s\<lparr>disk := fs1\<rparr>) = Inr r \<and>
           documents_loaded r = length (filter is_pdf_name names) \<and>
           0 < documents_loaded r"
proof -
  let ?p = "path_join (pdfs_dir s) name"
  from load_documents_Inl[OF assms(7)] obtain m where e: "e = Exception m" by blast
  have nn: "name \<noteq> []" using assms(3) is_pdf_name_Nil by auto
  have up: "upload_pdf env file s =
              (Inl (HTTPException 500 (''Internal server error: '' @ m)), s\<lparr>disk := fs1\<rparr>)"
    using assms(1,2,3,4,6,7) nn
    by (simp add: upload_pdf_def upload_try_def too_large_def Let_def e)
  from write_plain_D[OF assms(5,6)] obtain d where
    w1: "walk fs1 [] (split_on CHR ''/'' (pdfs_dir s)) = Some d"
    and fs1: "fs1 = AList.update (d @ [name]) (File (content file)) (disk s)" by blast
  let ?names = "children fs1 d"
  have ls: "listdir fs1 (pdfs_dir s) = Inr ?names" using w1 by (simp add: listdir_def)
  have mem: "name \<in> set ?names" by (simp add: set_children fs1 dom_update)
  have st: "stat fs1 ?p = Some (File (content file))" using write_file_again[OF assms(6)] by simp
  let ?r = "\<lparr>status = ''running'', rag_agent_ready = (my_rag_agent (s\<lparr>disk := fs1\<rparr>) \<noteq> None),
             pdfs_directory = pdfs_dir (s\<lparr>disk := fs1\<rparr>),
             documents_loaded = length (filter is_pdf_name ?names)\<rparr>"
  have gs: "get_status (s\<lparr>disk := fs1\<rparr>) = Inr ?r"
    using ls by (intro get_status_listed) simp
  have "name \<in> set (filter is_pdf_name ?names)" using mem assms(3) by simp
  then have pos: "0 < length (filter is_pdf_name ?names)" by (metis length_pos_if_in_set)
  show ?thesis
    using e up st ls mem gs pos assms(1)
    by (intro exI[of _ m] exI[of _ ?names] exI[of _ ?r]) simp
qed

theorem upload_not_atomic_witness:
  "\<exists>r. upload_pdf env_empty_pdf example_upload example_server =
          (Inl (HTTPException 500 ''Internal server error: Failed to load any documents''),
           example_server\<lparr>disk := [([''app''], Dir), ([''app'', ''pdfs''], Dir),
                                   ([''app'', ''pdfs'', ''a.pdf''], File [1, 2])]\<rparr>) \<and>
        get_status (example_server\<lparr>disk := [([''app''], Dir), ([''app'', ''pdfs''], Dir),
                                   ([''app'', ''pdfs'', ''a.pdf''], File [1, 2])]\<rparr>) = Inr r \<and>
        0 < documents_loaded r"
proof -
  let ?fs1 = "[([''app''], Dir), ([''app'', ''pdfs''], Dir), ([''app'', ''pdfs'', ''a.pdf''], File [1, 2])]"
  have 1: "my_rag_agent example_server = Some example_agent" by (simp add: example_server_def)
  have 2: "filename example_upload = Some ''a.pdf''" by (simp add: example_upload_def)
  have 3: "is_pdf_name ''a.pdf''" by (simp add: is_pdf_name_simps)
  have 4: "\<not> too_large example_upload" by (simp add: too_large_def example_upload_def)
  have 5: "CHR ''/'' \<notin> set ''a.pdf''" by simp
  have 6: "write_file (disk example_server) (path_join (pdfs_dir example_server) ''a.pdf'')
             (content example_upload) = Inr ?fs1"
    by (simp add: example_server_def example_upload_def path_join_def startswith_def endswith_def
          write_file_def resolve_def node_at_def names_dir_def)
  have 7: "load_documents env_empty_pdf ?fs1 example_agent
             [path_join (pdfs_dir example_server) ''a.pdf''] = Inl (Exception ''Failed to load any documents'')"
    by (simp add: example_server_def path_join_def startswith_def endswith_def load_documents_def
          path_exists_def stat_def resolve_def node_at_def is_pdf_name_simps env_empty_pdf_def
          example_env_def Let_def)
  from upload_not_atomic[OF 1 2 3 4 5 6 7] show ?thesis by auto
qed

text \<open>
  Claim C9 as stated fails: the file name of the upload is joined to the directory as it
  comes. With the name \<^verbatim>\<open>../x.pdf\<close> and a PDF without content the answer is 500 and the
  file has been written, but beside the PDFs directory, not in it: the directory is still
  empty and \<^verbatim>\<open>GET /status\<close> reports no document.
\<close>

theorem upload_outside_directory:
  "upload_pdf env_empty_pdf \<lparr>filename = Some ''../x.pdf'', content = [1, 2]\<rparr> example_server =
     (Inl (HTTPException 500 ''Internal server error: Failed to load any documents''),
      example_server\<lparr>disk := [([''app''], Dir), ([''app'', ''pdfs''], Dir),
                              ([''app'', ''x.pdf''], File [1, 2])]\<rparr>) \<and>
   listdir [([''app''], Dir), ([''app'', ''pdfs''], Dir), ([''app'', ''x.pdf''], File [1, 2])]
     ''/app/pdfs'' = Inr [] \<and>
   get_status (example_server\<lparr>disk := [([''app''], Dir), ([''app'', ''pdfs''], Dir),
                              ([''app'', ''x.pdf''], File [1, 2])]\<rparr>) =
     Inr \<lparr>status = ''running'', rag_agent_ready = True, pdfs_directory = ''/app/pdfs'',
          documents_loaded = 0\<rparr>"
  by (simp add: upload_pdf_def upload_try_def example_server_def env_empty_pdf_def example_env_def
        example_agent_def is_pdf_name_simps path_join_def startswith_def endswith_def
        write_file_def resolve_def node_at_def names_dir_def load_documents_def path_exists_def stat_def
        get_status_def listdir_def children_def Let_def)

section \<open>Reset\<close>

text \<open>
  Claim C1 says that a successful \<^verbatim>\<open>DELETE /reset\<close> leaves no PDF in the directory and a
  newly built agent with an empty index and an empty history. The handler does remove the
  files first, but its call of the constructor raises for every key. So on an initialized
  agent whose listed PDFs can all be removed, the request is answered HTTP 500 with the
  constructor's message; the PDFs directory then holds no name ending in \<^verbatim>\<open>.pdf\<close>, and
  the agent is the old one, with the index and the history it had.
\<close>

theorem reset_deletes_then_fails:
  assumes "wf_fs (disk s)" and "my_rag_agent s = Some a" and "\<not> no_key (GEMINI_API_KEY s)"
    and "listdir (disk s) (pdfs_dir s) = Inr names"
    and "remove_pdfs (pdfs_dir s) names (disk s) = (None, fs1)"
  shows "reset_documents env s =
           (Inl (HTTPException 500
                   ''Failed to reset documents: MyRAGAgent() takes no arguments''),
            s\<lparr>disk := fs1\<rparr>) \<and>
         my_rag_agent (s\<lparr>disk := fs1\<rparr>) = Some a \<and>
         (\<exists>names1. listdir fs1 (pdfs_dir s) = Inr names1 \<and> (\<forall>n\<in>set names1. \<not> is_pdf_name n))"
proof -
  have r: "reset_documents env s =
             (Inl (HTTPException 500
                     ''Failed to reset documents: MyRAGAgent() takes no arguments''),
              s\<lparr>disk := fs1\<rparr>)"
    using assms(2,3,4,5) by (simp add: reset_documents_def reset_try_def MyRAGAgent_def)
  from listdir_D[OF assms(4)] obtain d where
    w: "walk (disk s) [] (split_on CHR ''/'' (pdfs_dir s)) = Some d"
    and names: "names = children (disk s) d" by blast
  have fr: "\<forall>n\<in>set names. CHR ''/'' \<notin> set n"
    using children_free[OF assms(1)] names by blast
  have ch: "children fs1 d = filter (\<lambda>m. \<not> (m \<in> set names \<and> is_pdf_name m)) (children (disk s) d)"
    using remove_pdfs_clears[OF w fr assms(5)] .
  have none: "\<forall>n\<in>set (children fs1 d). \<not> is_pdf_name n"
    unfolding ch names by simp
  have w1: "walk fs1 [] (split_on CHR ''/'' (pdfs_dir s)) = Some d"
    using remove_pdfs_keeps[OF assms(5)] w by simp
  have ls1: "listdir fs1 (pdfs_dir s) = Inr (children fs1 d)"
    using w1 by (simp add: listdir_def)
  from r ls1 none assms(2) show ?thesis by auto
qed

theorem reset_deletes_then_fails_witness:
  "reset_documents example_env stocked_server =
     (Inl (HTTPException 500 ''Failed to reset documents: MyRAGAgent() takes no arguments''),
      stocked_server\<lparr>disk := [([''app''], Dir), ([''app'', ''pdfs''], Dir),
                               ([''app'', ''pdfs'', ''notes.txt''], File [3])]\<rparr>) \<and>
   my_rag_agent (stocked_server\<lparr>disk := [([''app''], Dir), ([''app'', ''pdfs''], Dir),
                               ([''app'', ''pdfs'', ''notes.txt''], File [3])]\<rparr>) =
     Some \<lparr>gemini_api_key = ''k'', vector_store = [example_page],
           chat_history = [HumanMessage ''hi'', AIMessage ''fine'']\<rparr>"
proof -
  have p1: "is_pdf_name ''a.PDF''" and p2: "\<not> is_pdf_name ''notes.txt''"
    by (simp_all add: is_pdf_name_def endswith_def lower_def lower_char_def)
  have 1: "wf_fs (disk stocked_server)" by (simp add: wf_fs_def stocked_server_def)
  have 2: "my_rag_agent stocked_server =
             Some \<lparr>gemini_api_key = ''k'', vector_store = [example_page],
                   chat_history = [HumanMessage ''hi'', AIMessage ''fine'']\<rparr>"
    by (simp add: stocked_server_def)
  have 3: "\<not> no_key (GEMINI_API_KEY stocked_server)" by (simp add: stocked_server_def no_key_def)
  have 4: "listdir (disk stocked_server) (pdfs_dir stocked_server) = Inr [''a.PDF'', ''notes.txt'']"
    by (simp add: stocked_server_def listdir_def children_def node_at_def)
  have 5: "remove_pdfs (pdfs_dir stocked_server) [''a.PDF'', ''notes.txt''] (disk stocked_server) =
             (None, [([''app''], Dir), ([''app'', ''pdfs''], Dir),
                     ([''app'', ''pdfs'', ''notes.txt''], File [3])])"
    by (simp add: stocked_server_def p1 p2 remove_def resolve_def path_join_def startswith_def
          endswith_def names_dir_def node_at_def)
  from reset_deletes_then_fails[OF 1 2 3 4 5, of example_env] show ?thesis by simp
qed

section \<open>Status\<close>

text \<open>
  Claim C6, as amended. For every \<^verbatim>\<open>GET /status\<close> on a server whose PDFs directory exists,
  after any requests: the request is answered, its field \<^verbatim>\<open>documents_loaded\<close> is the
  number of entries now in the PDFs directory, regular files and directories alike, whose
  names end in \<^verbatim>\<open>.pdf\<close> (case-insensitive), and \<^verbatim>\<open>rag_agent_ready\<close> is true exactly when
  the module holds an agent, which is so after the requests exactly when it was so before
  them.
\<close>

theorem status_reports:
  assumes "wf_fs (disk s0)" and "walk (disk s0) [] (split_on CHR ''/'' (pdfs_dir s0)) = Some d"
  shows "\<exists>r. get_status (serve reqs s0) = Inr r \<and>
           documents_loaded r =
             card {n. is_pdf_name n \<and> node_at (disk (serve reqs s0)) (d @ [n]) \<noteq> None} \<and>
           rag_agent_ready r = (my_rag_agent (serve reqs s0) \<noteq> None) \<and>
           rag_agent_ready r = (my_rag_agent s0 \<noteq> None)"
proof -
  let ?s = "serve reqs s0"
  from serve_keeps[OF assms(1), of reqs] have wfs: "wf_fs (disk ?s)" and ps: "pdfs_dir ?s = pdfs_dir s0"
    and ws: "\<forall>cur cs. walk (disk ?s) cur cs = walk (disk s0) cur cs"
    and as: "(my_rag_agent ?s = None) = (my_rag_agent s0 = None)" by simp_all
  have wd: "walk (disk ?s) [] (split_on CHR ''/'' (pdfs_dir ?s)) = Some d"
    using ws assms(2) ps by simp
  then have ls: "listdir (disk ?s) (pdfs_dir ?s) = Inr (children (disk ?s) d)"
    by (simp add: listdir_def)
  let ?r = "\<lparr>status = ''running'', rag_agent_ready = (my_rag_agent ?s \<noteq> None),
             pdfs_directory = pdfs_dir ?s,
             documents_loaded = length (filter is_pdf_name (children (disk ?s) d))\<rparr>"
  have gs: "get_status ?s = Inr ?r" using get_status_listed[OF ls] .
  have cnt: "documents_loaded ?r =
               card {n. is_pdf_name n \<and> node_at (disk ?s) (d @ [n]) \<noteq> None}"
  proof -
    have "{n. is_pdf_name n \<and> node_at (disk ?s) (d @ [n]) \<noteq> None} =
          {n. is_pdf_name n \<and> d @ [n] \<in> fst ` set (disk ?s)}"
      using node_at_snoc[of "disk ?s" d] by blast
    with count_children[OF wfs, of is_pdf_name d] show ?thesis by simp
  qed
  have rdy: "rag_agent_ready ?r = (my_rag_agent s0 \<noteq> None)" using as by simp
  from gs cnt rdy show ?thesis by (intro exI[of _ ?r]) simp
qed

theorem status_reports_witness:
  "\<exists>r. get_status (serve [(example_env, UploadPdf example_upload), (env_empty_pdf, Chat ''hi''),
                           (example_env, Reset)] example_server) = Inr r \<and>
       rag_agent_ready r"
proof -
  have wf: "wf_fs (disk example_server)" by (simp add: wf_fs_def example_server_def)
  have w: "walk (disk example_server) [] (split_on CHR ''/'' (pdfs_dir example_server)) =
             Some [''app'', ''pdfs'']"
    by (simp add: example_server_def node_at_def)
  have a: "my_rag_agent example_server \<noteq> None" by (simp add: example_server_def)
  from status_reports[OF wf w,
      of "[(example_env, UploadPdf example_upload), (env_empty_pdf, Chat ''hi''), (example_env, Reset)]"] a
  show ?thesis by auto
qed

text \<open>
  Claim C6 as stated fails: with a directory named \<^verbatim>\<open>d.pdf\<close> in the PDFs directory and no
  regular file anywhere, \<^verbatim>\<open>GET /status\<close> reports one document.
\<close>

theorem status_counts_directory:
  "map snd (disk (example_server\<lparr>disk := [([''app''], Dir), ([''app'', ''pdfs''], Dir),
                                         ([''app'', ''pdfs'', ''d.pdf''], Dir)]\<rparr>)) = [Dir, Dir, Dir] \<and>
   get_status (example_server\<lparr>disk := [([''app''], Dir), ([''app'', ''pdfs''], Dir),
                                        ([''app'', ''pdfs'', ''d.pdf''], Dir)]\<rparr>) =
     Inr \<lparr>status = ''running'', rag_agent_ready = True, pdfs_directory = ''/app/pdfs'',
          documents_loaded = 1\<rparr>"
  by (simp add: get_status_def listdir_def children_def node_at_def example_server_def
        is_pdf_name_def endswith_def lower_def lower_char_def)

end
